theory Spec2Isabelle
  imports Main
begin

section \<open>JavaScript values used by the payment services\<close>

text \<open>
  The services \<^verbatim>\<open>UsdcService\<close> and \<^verbatim>\<open>EthService\<close> work on JavaScript strings and
  \<^verbatim>\<open>BigInt\<close> values. A string is a list of code units; a \<^typ>\<open>char\<close> stands for a code
  unit below 256 (ASCII and Latin-1), which covers hexadecimal addresses, call data and
  decimal amounts. A \<^verbatim>\<open>BigInt\<close> is an \<^typ>\<open>int\<close>. Block numbers and confirmation counts are
  JavaScript numbers holding integers far below \<open>2^53\<close>, where their arithmetic is exact;
  they are \<^typ>\<open>int\<close> too. A thrown exception is a value of \<open>js_error\<close>, and a function
  that can throw returns \<open>js_error + 'a\<close>.
\<close>

datatype js_error =
    SyntaxError
  | Error string

type_synonym 'a js_result = "js_error + 'a"

subsection \<open>Strings\<close>

definition code_unit :: "char \<Rightarrow> nat" where
  "code_unit c = of_char c"

text \<open>
  \<^verbatim>\<open>String.prototype.toLowerCase\<close> on code units below 256: the capital letters are
  65..90 and 192..222 without 215, and the small letter is 32 higher, which sets the bit of
  weight 32 (it is clear in every capital letter).
\<close>

definition is_upper :: "char \<Rightarrow> bool" where
  "is_upper c =
     (let n = code_unit c
      in (65 \<le> n \<and> n \<le> 90) \<or> (192 \<le> n \<and> n \<le> 222 \<and> n \<noteq> 215))"

definition lower_char :: "char \<Rightarrow> char" where
  "lower_char c =
     (if is_upper c
      then (case c of Char b0 b1 b2 b3 b4 b5 b6 b7 \<Rightarrow> Char b0 b1 b2 b3 b4 True b6 b7)
      else c)"

definition toLowerCase :: "string \<Rightarrow> string" where
  "toLowerCase s = map lower_char s"

text \<open>White space as \<^verbatim>\<open>trim\<close> and the \<^verbatim>\<open>BigInt\<close> string grammar see it (TAB, LF, VT, FF,
  CR, SP, NBSP).\<close>

definition is_space :: "char \<Rightarrow> bool" where
  "is_space c = (code_unit c \<in> {9, 10, 11, 12, 13, 32, 160})"

definition trim :: "string \<Rightarrow> string" where
  "trim s = rev (dropWhile is_space (rev (dropWhile is_space s)))"

text \<open>\<^verbatim>\<open>s.split(d)\<close> for a one-character separator: never an empty array.\<close>

fun split_on :: "char \<Rightarrow> string \<Rightarrow> string list" where
  "split_on d [] = [[]]"
| "split_on d (c # cs) =
     (if c = d then [] # split_on d cs
      else (case split_on d cs of
              [] \<Rightarrow> [[c]]
            | p # ps \<Rightarrow> (c # p) # ps))"

text \<open>Array destructuring \<^verbatim>\<open>[a, b] = parts\<close>: a missing element is \<^verbatim>\<open>undefined\<close>.\<close>

definition element :: "'a list \<Rightarrow> nat \<Rightarrow> 'a option" where
  "element xs i = (if i < length xs then Some (xs ! i) else None)"

text \<open>\<^verbatim>\<open>x || d\<close> on a possibly undefined string: \<^verbatim>\<open>undefined\<close> and \<^verbatim>\<open>''\<close> are falsy.\<close>

definition or_else :: "string option \<Rightarrow> string \<Rightarrow> string" where
  "or_else x d = (case x of None \<Rightarrow> d | Some s \<Rightarrow> if s = [] then d else s)"

definition padEnd :: "nat \<Rightarrow> char \<Rightarrow> string \<Rightarrow> string" where
  "padEnd n c s = s @ replicate (n - length s) c"

definition padStart :: "nat \<Rightarrow> char \<Rightarrow> string \<Rightarrow> string" where
  "padStart n c s = replicate (n - length s) c @ s"

text \<open>\<^verbatim>\<open>s.slice(a, b)\<close> for \<open>0 \<le> a \<le> b\<close>, and \<^verbatim>\<open>s.slice(a)\<close>.\<close>

definition slice :: "nat \<Rightarrow> nat \<Rightarrow> string \<Rightarrow> string" where
  "slice a b s = take (b - a) (drop a s)"

definition slice_from :: "nat \<Rightarrow> string \<Rightarrow> string" where
  "slice_from a s = drop a s"

definition startsWith :: "string \<Rightarrow> string \<Rightarrow> bool" where
  "startsWith s p = (take (length p) s = p)"

subsection \<open>BigInt\<close>

text \<open>Digits of the four radixes of the \<^verbatim>\<open>BigInt\<close> string grammar.\<close>

definition is_digit :: "char \<Rightarrow> bool" where
  "is_digit c = (48 \<le> code_unit c \<and> code_unit c \<le> 57)"

definition digit_value :: "char \<Rightarrow> nat" where
  "digit_value c =
     (let n = code_unit c
      in if 48 \<le> n \<and> n \<le> 57 then n - 48
         else if 97 \<le> n \<and> n \<le> 102 then n - 87
         else if 65 \<le> n \<and> n \<le> 70 then n - 55
         else 0)"

definition is_radix_digit :: "nat \<Rightarrow> char \<Rightarrow> bool" where
  "is_radix_digit b c =
     (let n = code_unit c
      in ((48 \<le> n \<and> n \<le> 57) \<or> (97 \<le> n \<and> n \<le> 102) \<or> (65 \<le> n \<and> n \<le> 70))
         \<and> digit_value c < b)"

definition radix_value :: "nat \<Rightarrow> string \<Rightarrow> int" where
  "radix_value b ds = foldl (\<lambda>a c. a * int b + int (digit_value c)) 0 ds"

definition numeral_of :: "nat \<Rightarrow> string \<Rightarrow> int js_result" where
  "numeral_of b ds =
     (if ds \<noteq> [] \<and> list_all (is_radix_digit b) ds then Inr (radix_value b ds)
      else Inl SyntaxError)"

text \<open>
  \<^verbatim>\<open>BigInt(s)\<close> for a string \<open>s\<close>: white space is trimmed; the empty string is \<open>0n\<close>; a
  prefix \<^verbatim>\<open>0x\<close>, \<^verbatim>\<open>0o\<close> or \<^verbatim>\<open>0b\<close> (either case) selects the radix and takes no sign; a
  decimal numeral may carry one sign; anything else throws a \<^verbatim>\<open>SyntaxError\<close>.
\<close>

definition BigInt :: "string \<Rightarrow> int js_result" where
  "BigInt s =
     (let t = trim s
      in if t = [] then Inr 0
         else if take 2 t = ''0x'' \<or> take 2 t = ''0X'' then numeral_of 16 (drop 2 t)
         else if take 2 t = ''0o'' \<or> take 2 t = ''0O'' then numeral_of 8 (drop 2 t)
         else if take 2 t = ''0b'' \<or> take 2 t = ''0B'' then numeral_of 2 (drop 2 t)
         else if hd t = CHR ''-'' then map_sum id uminus (numeral_of 10 (tl t))
         else if hd t = CHR ''+'' then numeral_of 10 (tl t)
         else numeral_of 10 t)"

text \<open>\<^verbatim>\<open>BigInt.prototype.toString()\<close>: decimal, no leading zeros, a minus sign when negative.\<close>

definition digit_char :: "nat \<Rightarrow> char" where
  "digit_char d = ''0123456789'' ! d"

function digits_of :: "int \<Rightarrow> string" where
  "digits_of n =
     (if n < 10 then [digit_char (nat n)]
      else digits_of (n div 10) @ [digit_char (nat (n mod 10))])"
  by pat_completeness auto
termination
  by (relation "measure nat") auto

declare digits_of.simps [simp del]

definition bigint_toString :: "int \<Rightarrow> string" where
  "bigint_toString n = (if n < 0 then CHR ''-'' # digits_of (- n) else digits_of n)"

text \<open>\<^verbatim>\<open>a / b\<close> and \<^verbatim>\<open>a % b\<close> on \<^verbatim>\<open>BigInt\<close> round towards zero; the divisors used below are
  the non-zero constants \<open>10^6\<close> and \<open>10^18\<close>.\<close>

definition bigint_div :: "int \<Rightarrow> int \<Rightarrow> int" where
  "bigint_div a b = sgn a * sgn b * (\<bar>a\<bar> div \<bar>b\<bar>)"

definition bigint_rem :: "int \<Rightarrow> int \<Rightarrow> int" where
  "bigint_rem a b = sgn a * (\<bar>a\<bar> mod \<bar>b\<bar>)"

section \<open>Unit conversion\<close>

text \<open>
  \<^verbatim>\<open>toUnit6\<close> (UsdcService) and \<^verbatim>\<open>toWei\<close> (EthService). A \<^verbatim>\<open>number\<close> argument is first
  turned into its string; the model starts from that string.
\<close>

definition toUnit6 :: "string \<Rightarrow> int js_result" where
  "toUnit6 n =
     (let parts = split_on CHR ''.'' n;
          intPart = element parts 0;
          fracPartRaw = element parts 1;
          frac = slice 0 6 (padEnd 6 CHR ''0'' (or_else fracPartRaw ''''))
      in case BigInt (or_else intPart ''0'') of
           Inl e \<Rightarrow> Inl e
         | Inr i \<Rightarrow> (case BigInt (or_else (Some frac) ''0'') of
                      Inl e \<Rightarrow> Inl e
                    | Inr f \<Rightarrow> Inr (i * 10 ^ 6 + f)))"

definition fromUnit6 :: "int \<Rightarrow> string" where
  "fromUnit6 amount6 =
     (let intPart = bigint_div amount6 (10 ^ 6);
          frac = bigint_rem amount6 (10 ^ 6)
      in bigint_toString intPart @ ''.'' @ padStart 6 CHR ''0'' (bigint_toString frac))"

definition toWei :: "string \<Rightarrow> int js_result" where
  "toWei n =
     (let parts = split_on CHR ''.'' n;
          intPart = element parts 0;
          fracPartRaw = element parts 1;
          frac = slice 0 18 (padEnd 18 CHR ''0'' (or_else fracPartRaw ''''))
      in case BigInt (or_else intPart ''0'') of
           Inl e \<Rightarrow> Inl e
         | Inr i \<Rightarrow> (case BigInt (or_else (Some frac) ''0'') of
                      Inl e \<Rightarrow> Inl e
                    | Inr f \<Rightarrow> Inr (i * 10 ^ 18 + f)))"

definition fromWei :: "int \<Rightarrow> string" where
  "fromWei amountWei =
     (let intPart = bigint_div amountWei (10 ^ 18);
          frac = bigint_rem amountWei (10 ^ 18)
      in bigint_toString intPart @ ''.'' @ padStart 18 CHR ''0'' (bigint_toString frac))"

text \<open>
  The two pairs differ only in the constant. \<open>toMinorUnits\<close> and \<open>fromMinorUnits\<close> are
  their common body with the precision as a parameter: \<open>toUnit6\<close> and \<open>fromUnit6\<close> are
  the instance 6, \<open>toWei\<close> and \<open>fromWei\<close> the instance 18 (lemmas \<open>toUnit6_eq\<close>,
  \<open>toWei_eq\<close>, \<open>fromUnit6_eq\<close> and \<open>fromWei_eq\<close>).
\<close>

definition toMinorUnits :: "nat \<Rightarrow> string \<Rightarrow> int js_result" where
  "toMinorUnits p n =
     (let parts = split_on CHR ''.'' n;
          intPart = element parts 0;
          fracPartRaw = element parts 1;
          frac = slice 0 p (padEnd p CHR ''0'' (or_else fracPartRaw ''''))
      in case BigInt (or_else intPart ''0'') of
           Inl e \<Rightarrow> Inl e
         | Inr i \<Rightarrow> (case BigInt (or_else (Some frac) ''0'') of
                      Inl e \<Rightarrow> Inl e
                    | Inr f \<Rightarrow> Inr (i * 10 ^ p + f)))"

definition fromMinorUnits :: "nat \<Rightarrow> int \<Rightarrow> string" where
  "fromMinorUnits p amount =
     (let intPart = bigint_div amount (10 ^ p);
          frac = bigint_rem amount (10 ^ p)
      in bigint_toString intPart @ ''.'' @ padStart p CHR ''0'' (bigint_toString frac))"

section \<open>Chain configuration and the chain client\<close>

datatype SupportedChain = op_sepolia | op_mainnet

text \<open>\<^verbatim>\<open>process.env\<close>, and \<^verbatim>\<open>process.env.K || ''\<close>.\<close>

type_synonym env = "string \<Rightarrow> string option"

definition env_or_empty :: "env \<Rightarrow> string \<Rightarrow> string" where
  "env_or_empty e k = or_else (e k) ''''"

text \<open>
  \<^verbatim>\<open>UsdcConfig\<close> and \<^verbatim>\<open>EthConfig\<close> share five fields; the token service adds the token
  address and the split wallet.
\<close>

record EthConfig =
  chainIdHex :: string
  rpcUrl :: string
  depositWallet :: string
  payoutWallet :: string
  decimals :: nat

record UsdcConfig = EthConfig +
  tokenAddress :: string
  splitWallet :: string

record UsdcService =
  config :: "SupportedChain \<Rightarrow> UsdcConfig"
  mnemonic :: string

record EthService =
  config :: "SupportedChain \<Rightarrow> EthConfig"

text \<open>The constructors read the environment once; the warnings they log are left out.\<close>

definition UsdcService_constructor :: "env \<Rightarrow> UsdcService" where
  "UsdcService_constructor e =
     (let rpcSepolia = env_or_empty e ''OP_RPC_URL'';
          tokenSepolia = env_or_empty e ''USDC_TOKEN_ADDRESS_OP_SEPOLIA'';
          rpcMainnet = env_or_empty e ''OP_MAINNET_RPC_URL'';
          tokenMainnet = env_or_empty e ''USDC_TOKEN_ADDRESS_OP_MAINNET'';
          depositWallet = toLowerCase (env_or_empty e ''DEPOSIT_WALLET_ADDRESS'');
          splitWallet = toLowerCase (env_or_empty e ''SPLIT_WALLET_ADDRESS'');
          payoutWallet = toLowerCase (env_or_empty e ''PAYOUT_WALLET_ADDRESS'');
          mnemonic = env_or_empty e ''USDC_MNEMONIC''
      in \<lparr>UsdcService.config = (\<lambda>chain. case chain of
             op_sepolia \<Rightarrow>
               \<lparr>chainIdHex = ''0xaa37dc'', rpcUrl = rpcSepolia, depositWallet = depositWallet,
                payoutWallet = payoutWallet, decimals = 6, tokenAddress = tokenSepolia,
                splitWallet = splitWallet\<rparr>
           | op_mainnet \<Rightarrow>
               \<lparr>chainIdHex = ''0xa'', rpcUrl = rpcMainnet, depositWallet = depositWallet,
                payoutWallet = payoutWallet, decimals = 6, tokenAddress = tokenMainnet,
                splitWallet = splitWallet\<rparr>),
          mnemonic = mnemonic\<rparr>)"

definition EthService_constructor :: "env \<Rightarrow> EthService" where
  "EthService_constructor e =
     (let rpcSepolia = env_or_empty e ''OP_RPC_URL'';
          rpcMainnet = env_or_empty e ''OP_MAINNET_RPC_URL'';
          depositWallet = toLowerCase (env_or_empty e ''DEPOSIT_WALLET_ADDRESS'');
          payoutWallet = toLowerCase (env_or_empty e ''PAYOUT_WALLET_ADDRESS'')
      in \<lparr>EthService.config = (\<lambda>chain. case chain of
             op_sepolia \<Rightarrow>
               \<lparr>chainIdHex = ''0xaa37dc'', rpcUrl = rpcSepolia, depositWallet = depositWallet,
                payoutWallet = payoutWallet, decimals = 18\<rparr>
           | op_mainnet \<Rightarrow>
               \<lparr>chainIdHex = ''0xa'', rpcUrl = rpcMainnet, depositWallet = depositWallet,
                payoutWallet = payoutWallet, decimals = 18\<rparr>)\<rparr>)"

definition UsdcService_getChainConfig :: "UsdcService \<Rightarrow> SupportedChain \<Rightarrow> UsdcConfig" where
  "UsdcService_getChainConfig this chain = UsdcService.config this chain"

definition EthService_getChainConfig :: "EthService \<Rightarrow> SupportedChain \<Rightarrow> EthConfig" where
  "EthService_getChainConfig this chain = EthService.config this chain"

subsection \<open>What the chain client returns\<close>

text \<open>
  The values of the ethers library that the services read. A receipt has a status
  (\<^verbatim>\<open>null\<close> or a number), a block number and logs; a transaction has a destination
  (\<^verbatim>\<open>null\<close> when it creates a contract), a sender, call data and a value.
\<close>

record Log =
  log_address :: string
  log_topics :: "string list"
  log_data :: string

record TransactionReceipt =
  status :: "int option"
  blockNumber :: "int option"
  logs :: "Log list"

record TransactionResponse =
  tx_to :: "string option"
  tx_from :: string
  tx_data :: string
  tx_value :: "int option"

text \<open>
  A provider answers the three read requests of the validators. The answers of one
  validation call are taken as given: \<^verbatim>\<open>waitForTransaction(txHash, 1, 60000)\<close> gives a
  receipt or \<^verbatim>\<open>null\<close>, \<^verbatim>\<open>getTransaction(txHash)\<close> a transaction or \<^verbatim>\<open>null\<close>,
  \<^verbatim>\<open>getBlockNumber()\<close> the head block number. A transport error of the client is outside
  the model.
\<close>

record JsonRpcProvider =
  waitForTransaction :: "string \<Rightarrow> TransactionReceipt option"
  getTransaction :: "string \<Rightarrow> TransactionResponse option"
  getBlockNumber :: int

text \<open>
  \<^verbatim>\<open>getProvider\<close> creates one provider per chain from the chain's RPC endpoint and keeps
  it; the network is the function from an endpoint to the provider that answers there.
\<close>

type_synonym network = "string \<Rightarrow> JsonRpcProvider"

definition UsdcService_getProvider ::
  "network \<Rightarrow> UsdcService \<Rightarrow> SupportedChain \<Rightarrow> JsonRpcProvider" where
  "UsdcService_getProvider net this chain = net (rpcUrl (UsdcService_getChainConfig this chain))"

definition EthService_getProvider ::
  "network \<Rightarrow> EthService \<Rightarrow> SupportedChain \<Rightarrow> JsonRpcProvider" where
  "EthService_getProvider net this chain = net (rpcUrl (EthService_getChainConfig this chain))"

text \<open>
  \<^verbatim>\<open>iface.parseLog\<close> of the ethers interface built from \<^verbatim>\<open>ERC20_ABI\<close> is a parameter: on
  the topics and data of a log it throws, returns \<^verbatim>\<open>null\<close>, or returns the name of the
  event and its arguments (for \<^verbatim>\<open>Transfer\<close>: two addresses and an amount).
\<close>

record LogDescription =
  name :: string
  args0 :: string
  args1 :: string
  args2 :: int

datatype ParseResult = Throws | Null | Parsed LogDescription

type_synonym Interface = "string list \<Rightarrow> string \<Rightarrow> ParseResult"

section \<open>Validation of an incoming transfer\<close>

text \<open>
  \<^verbatim>\<open>PurchaseValidationResult\<close> and \<^verbatim>\<open>EthPurchaseValidationResult\<close>: an absent optional
  field is \<open>None\<close>. The two interfaces differ in the name of the amount field only.
\<close>

record ValidationResult =
  ok :: bool
  reason :: "string option"
  txHash :: "string option"
  confirmations :: "int option"
  sender :: "string option"
  to :: "string option"

record PurchaseValidationResult = ValidationResult +
  amount6 :: "int option"

record EthPurchaseValidationResult = ValidationResult +
  amountWei :: "int option"

subsection \<open>The token service\<close>

text \<open>The local \<^verbatim>\<open>matched\<close> of \<^verbatim>\<open>UsdcService.validateIncomingTransfer\<close>.\<close>

record MatchedTransfer =
  m_from :: string
  m_to :: string
  m_value :: int

text \<open>
  The loop over \<^verbatim>\<open>receipt.logs\<close>: a log of another address is skipped, a log whose
  parsing throws is skipped (the \<^verbatim>\<open>catch\<close> is empty), and the first \<^verbatim>\<open>Transfer\<close> to the
  deposit wallet from the expected sender ends the loop.
\<close>

fun matchTransferLog ::
  "UsdcConfig \<Rightarrow> Interface \<Rightarrow> string \<Rightarrow> Log list \<Rightarrow> MatchedTransfer option" where
  "matchTransferLog cfg iface expectedSender [] = None"
| "matchTransferLog cfg iface expectedSender (log # rest) =
     (if log_address log = [] \<or> toLowerCase (log_address log) \<noteq> toLowerCase (tokenAddress cfg)
      then matchTransferLog cfg iface expectedSender rest
      else (case iface (log_topics log) (log_data log) of
              Throws \<Rightarrow> matchTransferLog cfg iface expectedSender rest
            | Null \<Rightarrow> matchTransferLog cfg iface expectedSender rest
            | Parsed parsed \<Rightarrow>
                if name parsed = ''Transfer''
                then (let from_addr = toLowerCase (args0 parsed);
                          to_addr = toLowerCase (args1 parsed)
                      in case BigInt (bigint_toString (args2 parsed)) of
                           Inl e \<Rightarrow> matchTransferLog cfg iface expectedSender rest
                         | Inr v \<Rightarrow>
                             if to_addr = depositWallet cfg
                                \<and> from_addr = toLowerCase expectedSender
                             then Some \<lparr>m_from = from_addr, m_to = to_addr, m_value = v\<rparr>
                             else matchTransferLog cfg iface expectedSender rest)
                else matchTransferLog cfg iface expectedSender rest))"

text \<open>
  The fallback on the transaction input. \<^verbatim>\<open>BigInt('0x' + valEncoded)\<close> is outside any
  \<^verbatim>\<open>try\<close>: when it throws, the validation throws.
\<close>

definition matchTransferInput ::
  "UsdcConfig \<Rightarrow> string \<Rightarrow> TransactionResponse option \<Rightarrow> MatchedTransfer option js_result" where
  "matchTransferInput cfg expectedSender tx_opt =
     (case tx_opt of
        None \<Rightarrow> Inr None
      | Some tx \<Rightarrow>
          if (case tx_to tx of
                None \<Rightarrow> False
              | Some t \<Rightarrow> t \<noteq> [] \<and> toLowerCase t = toLowerCase (tokenAddress cfg))
             \<and> startsWith (tx_data tx) ''0xa9059cbb''
          then (let toEncoded = slice 10 74 (tx_data tx);
                    valEncoded = slice 74 138 (tx_data tx);
                    toAddr = ''0x'' @ slice_from 24 toEncoded
                in case BigInt (''0x'' @ valEncoded) of
                     Inl e \<Rightarrow> Inl e
                   | Inr val \<Rightarrow>
                       (let senderLower = toLowerCase (or_else (Some (tx_from tx)) '''')
                        in if senderLower = toLowerCase expectedSender
                              \<and> toLowerCase toAddr = toLowerCase (depositWallet cfg)
                           then Inr (Some \<lparr>m_from = senderLower,
                                          m_to = toLowerCase (depositWallet cfg),
                                          m_value = val\<rparr>)
                           else Inr None))
          else Inr None)"

text \<open>The two strategies in order: the transaction is fetched only when no log matched.\<close>

definition matchTransfer ::
  "UsdcConfig \<Rightarrow> Interface \<Rightarrow> JsonRpcProvider \<Rightarrow> string \<Rightarrow> string \<Rightarrow> TransactionReceipt
   \<Rightarrow> MatchedTransfer option js_result" where
  "matchTransfer cfg iface provider hash expectedSender receipt =
     (case matchTransferLog cfg iface expectedSender (logs receipt) of
        Some m \<Rightarrow> Inr (Some m)
      | None \<Rightarrow> matchTransferInput cfg expectedSender (getTransaction provider hash))"

definition UsdcService_validateIncomingTransfer ::
  "UsdcService \<Rightarrow> network \<Rightarrow> Interface \<Rightarrow> SupportedChain \<Rightarrow> string \<Rightarrow> int \<Rightarrow> string
   \<Rightarrow> PurchaseValidationResult js_result" where
  "UsdcService_validateIncomingTransfer this net iface chain hash expectedAmount6 expectedSender =
     (let cfg = UsdcService_getChainConfig this chain
      in if tokenAddress cfg = []
         then Inr \<lparr>ok = False, reason = Some ''Token address not configured'', txHash = None,
                   confirmations = None, sender = None, to = None, amount6 = None\<rparr>
         else
           (let provider = UsdcService_getProvider net this chain
            in case waitForTransaction provider hash of
                 None \<Rightarrow>
                   Inr \<lparr>ok = False, reason = Some ''Transaction not found'', txHash = None,
                        confirmations = None, sender = None, to = None, amount6 = None\<rparr>
               | Some receipt \<Rightarrow>
                   if status receipt \<noteq> Some 1
                   then Inr \<lparr>ok = False, reason = Some ''Transaction reverted'',
                             txHash = Some hash, confirmations = None, sender = None,
                             to = None, amount6 = None\<rparr>
                   else
                     (case matchTransfer cfg iface provider hash expectedSender receipt of
                        Inl e \<Rightarrow> Inl e
                      | Inr None \<Rightarrow>
                          Inr \<lparr>ok = False,
                               reason = Some ''No matching USDC transfer to deposit wallet found'',
                               txHash = Some hash, confirmations = None, sender = None,
                               to = None, amount6 = None\<rparr>
                      | Inr (Some matched) \<Rightarrow>
                          if m_value matched \<noteq> expectedAmount6
                          then Inr \<lparr>ok = False, reason = Some ''Amount mismatch'',
                                    txHash = Some hash, confirmations = None, sender = None,
                                    to = None, amount6 = None\<rparr>
                          else
                            (let current = getBlockNumber provider;
                                 confs = current
                                   - (case blockNumber receipt of None \<Rightarrow> current | Some b \<Rightarrow> b)
                                   + 1
                             in if confs < 1
                                then Inr \<lparr>ok = False, reason = Some ''Not enough confirmations'',
                                          txHash = Some hash, confirmations = Some confs,
                                          sender = None, to = None, amount6 = None\<rparr>
                                else Inr \<lparr>ok = True, reason = None, txHash = Some hash,
                                          confirmations = Some confs,
                                          sender = Some (m_from matched),
                                          to = Some (m_to matched),
                                          amount6 = Some (m_value matched)\<rparr>))))"

subsection \<open>The native-asset service\<close>

text \<open>\<^verbatim>\<open>isBlockedAddress\<close> reads \<^verbatim>\<open>BLOCKED_ETH_ADDRESSES\<close> at each call.\<close>

definition EthService_isBlockedAddress :: "env \<Rightarrow> string \<Rightarrow> bool" where
  "EthService_isBlockedAddress e address =
     (let a = toLowerCase (or_else (Some address) '''');
          fromEnv = filter (\<lambda>s. s \<noteq> [])
                      (map (\<lambda>s. toLowerCase (trim s))
                         (split_on CHR '','' (env_or_empty e ''BLOCKED_ETH_ADDRESSES'')))
      in a \<in> set fromEnv)"

definition EthService_validateIncomingTransfer ::
  "EthService \<Rightarrow> env \<Rightarrow> network \<Rightarrow> SupportedChain \<Rightarrow> string \<Rightarrow> int \<Rightarrow> string
   \<Rightarrow> EthPurchaseValidationResult js_result" where
  "EthService_validateIncomingTransfer this e net chain hash expectedAmountWei expectedSender =
     (let cfg = EthService_getChainConfig this chain;
          provider = EthService_getProvider net this chain
      in case waitForTransaction provider hash of
           None \<Rightarrow>
             Inr \<lparr>ok = False, reason = Some ''Transaction not found'', txHash = None,
                  confirmations = None, sender = None, to = None, amountWei = None\<rparr>
         | Some receipt \<Rightarrow>
             if status receipt \<noteq> Some 1
             then Inr \<lparr>ok = False, reason = Some ''Transaction reverted'', txHash = Some hash,
                       confirmations = None, sender = None, to = None, amountWei = None\<rparr>
             else
               (case getTransaction provider hash of
                  None \<Rightarrow>
                    Inr \<lparr>ok = False, reason = Some ''Transaction not found (tx)'',
                         txHash = Some hash, confirmations = None, sender = None, to = None,
                         amountWei = None\<rparr>
                | Some tx \<Rightarrow>
                    (let toAddr = toLowerCase (or_else (tx_to tx) '''');
                         fromAddr = toLowerCase (or_else (Some (tx_from tx)) '''')
                     in case BigInt (or_else (map_option bigint_toString (tx_value tx)) ''0'') of
                          Inl err \<Rightarrow> Inl err
                        | Inr val \<Rightarrow>
                            if EthService_isBlockedAddress e toAddr
                            then Inr \<lparr>ok = False, reason = Some ''Blocked recipient'',
                                      txHash = Some hash, confirmations = None, sender = None,
                                      to = None, amountWei = None\<rparr>
                            else if toAddr \<noteq> depositWallet cfg
                            then Inr \<lparr>ok = False, reason = Some ''Wrong recipient'',
                                      txHash = Some hash, confirmations = None, sender = None,
                                      to = None, amountWei = None\<rparr>
                            else if fromAddr \<noteq> toLowerCase expectedSender
                            then Inr \<lparr>ok = False, reason = Some ''Wrong sender'',
                                      txHash = Some hash, confirmations = None, sender = None,
                                      to = None, amountWei = None\<rparr>
                            else if val \<noteq> expectedAmountWei
                            then Inr \<lparr>ok = False, reason = Some ''Amount mismatch'',
                                      txHash = Some hash, confirmations = None, sender = None,
                                      to = None, amountWei = None\<rparr>
                            else
                              (let current = getBlockNumber provider;
                                   confs = current
                                     - (case blockNumber receipt of None \<Rightarrow> current | Some b \<Rightarrow> b)
                                     + 1
                               in if confs < 1
                                  then Inr \<lparr>ok = False,
                                            reason = Some ''Not enough confirmations'',
                                            txHash = Some hash, confirmations = Some confs,
                                            sender = None, to = None, amountWei = None\<rparr>
                                  else Inr \<lparr>ok = True, reason = None, txHash = Some hash,
                                            confirmations = Some confs, sender = Some fromAddr,
                                            to = Some toAddr, amountWei = Some val\<rparr>))))"

section \<open>Key derivation and settlement (token service)\<close>

text \<open>
  A wallet derived from the seed phrase: its address, its derivation path and the endpoint
  of the provider it is connected to. The derivation itself,
  \<^verbatim>\<open>ethers.HDNodeWallet.fromPhrase(phrase).derivePath(path)\<close>, is a parameter; it throws on
  a phrase that is not a valid mnemonic.
\<close>

record HDNodeWallet =
  wallet_address :: string
  wallet_path :: string
  wallet_provider :: "string option"

type_synonym Derivation = "string \<Rightarrow> string \<Rightarrow> HDNodeWallet js_result"

definition UsdcService_getDepositSigner ::
  "UsdcService \<Rightarrow> Derivation \<Rightarrow> SupportedChain \<Rightarrow> nat \<Rightarrow> HDNodeWallet js_result" where
  "UsdcService_getDepositSigner this derive chain accountIndex =
     (if mnemonic this = [] then Inl (Error ''USDC_MNEMONIC not configured'')
      else (case derive (mnemonic this) (''m/44'/60'/0'/0/'' @ digits_of (int accountIndex)) of
              Inl e \<Rightarrow> Inl e
            | Inr wallet \<Rightarrow>
                Inr (wallet\<lparr>wallet_provider :=
                              Some (rpcUrl (UsdcService_getChainConfig this chain))\<rparr>)))"

text \<open>The loop \<^verbatim>\<open>for (let i = 0; i < 10; i++)\<close> of \<^verbatim>\<open>resolveSignerForAddress\<close>, from \<open>i\<close> on.\<close>

function resolveSignerFrom ::
  "UsdcService \<Rightarrow> Derivation \<Rightarrow> SupportedChain \<Rightarrow> string \<Rightarrow> nat \<Rightarrow> HDNodeWallet js_result" where
  "resolveSignerFrom this derive chain addrLower i =
     (if i < 10
      then (case UsdcService_getDepositSigner this derive chain i of
              Inl e \<Rightarrow> Inl e
            | Inr signer \<Rightarrow>
                if toLowerCase (wallet_address signer) = addrLower then Inr signer
                else resolveSignerFrom this derive chain addrLower (Suc i))
      else Inl (Error ''Mnemonic does not derive the expected wallet address''))"
  by pat_completeness auto
termination
  by (relation "measure (\<lambda>(this, derive, chain, addrLower, i). 10 - i)") auto

declare resolveSignerFrom.simps [simp del]

definition UsdcService_resolveSignerForAddress ::
  "UsdcService \<Rightarrow> Derivation \<Rightarrow> SupportedChain \<Rightarrow> string \<Rightarrow> HDNodeWallet js_result" where
  "UsdcService_resolveSignerForAddress this derive chain targetAddress =
     resolveSignerFrom this derive chain (toLowerCase targetAddress) 0"

subsection \<open>The token contract and the state of the chain\<close>

text \<open>
  The contract object is the token address bound to the chain's provider. The state of the
  chain, as far as the settlement sees it, is the token balances and the transfers that
  were submitted for signing and broadcast, oldest first. What the chain makes of a
  submitted transfer is a parameter: the transaction hash with the status of the receipt
  that \<^verbatim>\<open>tx.wait(1)\<close> returns (\<open>None\<close> for no receipt or no status), or an exception, and
  the balances afterwards.
\<close>

record Contract =
  contract_address :: string
  contract_provider :: string

record Submission =
  sub_contract :: Contract
  sub_signer :: HDNodeWallet
  sub_to :: string
  sub_amount :: int

record ChainState =
  balances :: "Contract \<Rightarrow> string \<Rightarrow> int"
  submitted :: "Submission list"

type_synonym Miner =
  "ChainState \<Rightarrow> Submission \<Rightarrow> (string \<times> int option) js_result \<times> (Contract \<Rightarrow> string \<Rightarrow> int)"

definition UsdcService_getUsdcContract :: "UsdcService \<Rightarrow> SupportedChain \<Rightarrow> Contract" where
  "UsdcService_getUsdcContract this chain =
     (let cfg = UsdcService_getChainConfig this chain
      in \<lparr>contract_address = tokenAddress cfg, contract_provider = rpcUrl cfg\<rparr>)"

text \<open>\<^verbatim>\<open>usdc.balanceOf(address)\<close> reads the state.\<close>

definition balanceOf :: "ChainState \<Rightarrow> Contract \<Rightarrow> string \<Rightarrow> int" where
  "balanceOf w usdc owner = balances w usdc owner"

text \<open>\<^verbatim>\<open>usdc.connect(signer).transfer(to, amount)\<close> followed by \<^verbatim>\<open>tx.wait(1)\<close>.\<close>

definition transfer_and_wait ::
  "Miner \<Rightarrow> ChainState \<Rightarrow> Contract \<Rightarrow> HDNodeWallet \<Rightarrow> string \<Rightarrow> int
   \<Rightarrow> (string \<times> int option) js_result \<times> ChainState" where
  "transfer_and_wait mine w usdc signer recipient amount =
     (let s = \<lparr>sub_contract = usdc, sub_signer = signer, sub_to = recipient, sub_amount = amount\<rparr>;
          (outcome, after) = mine w s
      in (outcome, \<lparr>balances = after, submitted = submitted w @ [s]\<rparr>))"

definition UsdcService_getTokenBalance ::
  "UsdcService \<Rightarrow> ChainState \<Rightarrow> SupportedChain \<Rightarrow> string \<Rightarrow> int js_result" where
  "UsdcService_getTokenBalance this w chain address =
     (let usdc = UsdcService_getUsdcContract this chain;
          bal = balanceOf w usdc address
      in BigInt (bigint_toString bal))"

definition UsdcService_sweepToPayout ::
  "UsdcService \<Rightarrow> Derivation \<Rightarrow> Miner \<Rightarrow> ChainState \<Rightarrow> SupportedChain \<Rightarrow> string
   \<Rightarrow> string option js_result \<times> ChainState" where
  "UsdcService_sweepToPayout this derive mine w chain fromAddress =
     (let cfg = UsdcService_getChainConfig this chain
      in case UsdcService_getTokenBalance this w chain fromAddress of
           Inl e \<Rightarrow> (Inl e, w)
         | Inr balance \<Rightarrow>
             if balance = 0 then (Inr None, w)
             else (case UsdcService_resolveSignerForAddress this derive chain fromAddress of
                     Inl e \<Rightarrow> (Inl e, w)
                   | Inr signer \<Rightarrow>
                       (let usdc = UsdcService_getUsdcContract this chain
                        in case transfer_and_wait mine w usdc signer (payoutWallet cfg) balance of
                             (Inl e, w') \<Rightarrow> (Inl e, w')
                           | (Inr (hash, rc_status), w') \<Rightarrow>
                               if rc_status \<noteq> Some 1
                               then (Inl (Error ''Sweep transfer failed''), w')
                               else (Inr (Some hash), w'))))"

definition UsdcService_payout ::
  "UsdcService \<Rightarrow> Derivation \<Rightarrow> Miner \<Rightarrow> ChainState \<Rightarrow> SupportedChain \<Rightarrow> string \<Rightarrow> int
   \<Rightarrow> string js_result \<times> ChainState" where
  "UsdcService_payout this derive mine w chain recipient amount =
     (let cfg = UsdcService_getChainConfig this chain
      in case UsdcService_resolveSignerForAddress this derive chain (payoutWallet cfg) of
           Inl e \<Rightarrow> (Inl e, w)
         | Inr signer \<Rightarrow>
             (let usdc = UsdcService_getUsdcContract this chain
              in case transfer_and_wait mine w usdc signer recipient amount of
                   (Inl e, w') \<Rightarrow> (Inl e, w')
                 | (Inr (hash, rc_status), w') \<Rightarrow>
                     if rc_status \<noteq> Some 1
                     then (Inl (Error ''Payout transfer failed''), w')
                     else (Inr hash, w')))"

section \<open>Concrete inputs\<close>

text \<open>
  The environment, chain answers and derivation used to run the services on concrete
  inputs. \<open>fixed_provider\<close> answers every request with the given receipt, transaction and
  head block number, and \<open>fixed_network\<close> reaches that provider at every endpoint.
\<close>

definition ex_token :: string where
  "ex_token = ''0x5fd84259d66Cd46123540766Be93DFE6D43130D7''"

definition ex_deposit :: string where
  "ex_deposit = ''0x2222222222222222222222222222222222222AbC''"

definition ex_sender :: string where
  "ex_sender = ''0xAAAAaaaaAAAAaaaaAAAAaaaaAAAAaaaaAAAAaaaa''"

definition ex_blocked :: string where
  "ex_blocked = ''0xBAD0000000000000000000000000000000000bad''"

definition ex_env :: env where
  "ex_env =
     [''OP_RPC_URL'' \<mapsto> ''https://sepolia.example'',
      ''USDC_TOKEN_ADDRESS_OP_SEPOLIA'' \<mapsto> ex_token,
      ''DEPOSIT_WALLET_ADDRESS'' \<mapsto> ex_deposit,
      ''PAYOUT_WALLET_ADDRESS'' \<mapsto> ''0x3333333333333333333333333333333333333333'',
      ''USDC_MNEMONIC'' \<mapsto> ''test test test test test test test test test test test junk'',
      ''BLOCKED_ETH_ADDRESSES'' \<mapsto> '' 0xBAD0000000000000000000000000000000000bad ,0x01'']"

text \<open>The same environment with the deposit wallet on the blocked list.\<close>

definition ex_env_blocked :: env where
  "ex_env_blocked = ex_env(''BLOCKED_ETH_ADDRESSES'' \<mapsto> ex_deposit)"

text \<open>An environment without token address and without seed phrase.\<close>

definition ex_env_bare :: env where
  "ex_env_bare =
     [''OP_RPC_URL'' \<mapsto> ''https://sepolia.example'',
      ''DEPOSIT_WALLET_ADDRESS'' \<mapsto> ex_deposit]"

definition fixed_provider ::
  "TransactionReceipt option \<Rightarrow> TransactionResponse option \<Rightarrow> int \<Rightarrow> JsonRpcProvider" where
  "fixed_provider receipt tx head =
     \<lparr>waitForTransaction = (\<lambda>h. receipt), getTransaction = (\<lambda>h. tx), getBlockNumber = head\<rparr>"

definition fixed_network :: "JsonRpcProvider \<Rightarrow> network" where
  "fixed_network p = (\<lambda>url. p)"

text \<open>An interface that decodes the topics \<^verbatim>\<open>["Transfer", from, to]\<close> and a decimal amount
  in the data as a \<^verbatim>\<open>Transfer\<close> event, throws on the data \<^verbatim>\<open>"bad"\<close> and knows no other
  event.\<close>

definition ex_iface :: Interface where
  "ex_iface ts d =
     (if d = ''bad'' then Throws
      else (case ts of
              [t, a, b] \<Rightarrow>
                if t = ''Transfer''
                then Parsed \<lparr>name = ''Transfer'', args0 = a, args1 = b, args2 = radix_value 10 d\<rparr>
                else Null
            | _ \<Rightarrow> Null))"

definition ex_log :: Log where
  "ex_log = \<lparr>log_address = ex_token, log_topics = [''Transfer'', ex_sender, ex_deposit],
             log_data = ''1000000''\<rparr>"

text \<open>Call data of \<^verbatim>\<open>transfer(ex_deposit, 1000000)\<close>, whole and cut after the first
  argument.\<close>

definition ex_slot1 :: string where
  "ex_slot1 = ''0000000000000000000000002222222222222222222222222222222222222abc''"

definition ex_slot2 :: string where
  "ex_slot2 = ''00000000000000000000000000000000000000000000000000000000000f4240''"

definition ex_tx_transfer :: TransactionResponse where
  "ex_tx_transfer =
     \<lparr>tx_to = Some ex_token, tx_from = ex_sender,
      tx_data = ''0xa9059cbb'' @ ex_slot1 @ ex_slot2, tx_value = Some 0\<rparr>"

definition ex_tx_cut :: TransactionResponse where
  "ex_tx_cut =
     \<lparr>tx_to = Some ex_token, tx_from = ex_sender,
      tx_data = ''0xa9059cbb'' @ ex_slot1, tx_value = Some 0\<rparr>"

text \<open>A native transfer of 5 finney to the deposit wallet.\<close>

definition ex_tx_native :: TransactionResponse where
  "ex_tx_native =
     \<lparr>tx_to = Some ex_deposit, tx_from = ex_sender, tx_data = ''0x'',
      tx_value = Some 5000000000000000\<rparr>"

text \<open>A derivation that gives, at the path ending in \<open>3\<close>, the wallet of \<open>ex_deposit\<close> and
  at every other path a wallet of the fixed address \<^verbatim>\<open>0x00\<close>.\<close>

definition ex_derive :: Derivation where
  "ex_derive phrase path =
     Inr \<lparr>wallet_address = (if path = ''m/44'/60'/0'/0/3'' then ex_deposit else ''0x00''),
          wallet_path = path, wallet_provider = None\<rparr>"

text \<open>A chain that mines every submitted transfer successfully and leaves the balances
  alone, and two states: every balance zero, every balance 7.\<close>

definition ex_mine :: Miner where
  "ex_mine w s = (Inr (''0xhash'', Some 1), balances w)"

definition ex_state_empty :: ChainState where
  "ex_state_empty = \<lparr>balances = (\<lambda>c a. 0), submitted = []\<rparr>"

definition ex_state_funded :: ChainState where
  "ex_state_funded = \<lparr>balances = (\<lambda>c a. 7), submitted = []\<rparr>"

text \<open>A mined and successful receipt with one matching \<^verbatim>\<open>Transfer\<close> log, the same receipt
  reverted, and the networks that answer with them (head block 102).\<close>

definition ex_receipt :: TransactionReceipt where
  "ex_receipt = \<lparr>status = Some 1, blockNumber = Some 100, logs = [ex_log]\<rparr>"

definition ex_receipt_reverted :: TransactionReceipt where
  "ex_receipt_reverted = \<lparr>status = Some 0, blockNumber = Some 100, logs = [ex_log]\<rparr>"

definition ex_net :: network where
  "ex_net = fixed_network (fixed_provider (Some ex_receipt) (Some ex_tx_native) 102)"

definition ex_net_reverted :: network where
  "ex_net_reverted =
     fixed_network (fixed_provider (Some ex_receipt_reverted) (Some ex_tx_native) 102)"

text \<open>The head block behind the receipt's block, a receipt without a block number, and a
  receipt without logs whose transaction carries the whole or the cut call data.\<close>

definition ex_net_behind :: network where
  "ex_net_behind = fixed_network (fixed_provider (Some ex_receipt) (Some ex_tx_native) 99)"

definition ex_receipt_unnumbered :: TransactionReceipt where
  "ex_receipt_unnumbered = \<lparr>status = Some 1, blockNumber = None, logs = [ex_log]\<rparr>"

definition ex_net_unnumbered :: network where
  "ex_net_unnumbered =
     fixed_network (fixed_provider (Some ex_receipt_unnumbered) (Some ex_tx_native) 102)"

definition ex_receipt_nologs :: TransactionReceipt where
  "ex_receipt_nologs = \<lparr>status = Some 1, blockNumber = Some 100, logs = []\<rparr>"

definition ex_provider_input :: JsonRpcProvider where
  "ex_provider_input = fixed_provider (Some ex_receipt_nologs) (Some ex_tx_transfer) 102"

definition ex_provider_cut :: JsonRpcProvider where
  "ex_provider_cut = fixed_provider (Some ex_receipt_nologs) (Some ex_tx_cut) 102"

text \<open>The wallet that \<open>ex_derive\<close> gives at account index \<open>i\<close>, connected to the endpoint
  of \<open>ex_env\<close>.\<close>

definition ex_wallet :: "nat \<Rightarrow> HDNodeWallet" where
  "ex_wallet i =
     \<lparr>wallet_address = (if i = 3 then ex_deposit else ''0x00''),
      wallet_path = ''m/44'/60'/0'/0/'' @ digits_of (int i),
      wallet_provider = Some ''https://sepolia.example''\<rparr>"

text \<open>A derivation that agrees with \<open>ex_derive\<close> on the paths of the indices 0 to 9 and
  gives the wallet of \<open>ex_sender\<close> at every longer path.\<close>

definition ex_derive_beyond :: Derivation where
  "ex_derive_beyond phrase path =
     (if length path \<le> 16 then ex_derive phrase path
      else Inr \<lparr>wallet_address = ex_sender, wallet_path = path, wallet_provider = None\<rparr>)"

section \<open>Facts about numerals and strings\<close>

lemma digit_char_code: "d < 10 \<Longrightarrow> code_unit (digit_char d) = 48 + d"
proof -
  assume "d < 10"
  then have "d \<in> {0, 1, 2, 3, 4, 5, 6, 7, 8, 9}" by auto
  then show ?thesis by (auto simp: digit_char_def code_unit_def)
qed

lemma is_digit_digit_char: "d < 10 \<Longrightarrow> is_digit (digit_char d)"
  by (simp add: is_digit_def digit_char_code)

lemma digit_value_digit_char: "d < 10 \<Longrightarrow> digit_value (digit_char d) = d"
  by (simp add: digit_value_def digit_char_code)

lemma is_radix_digit_10: "is_radix_digit 10 c = is_digit c"
  by (auto simp: is_radix_digit_def is_digit_def digit_value_def Let_def)

lemma radix_value_Nil: "radix_value b [] = 0"
  by (simp add: radix_value_def)

lemma radix_value_snoc:
  "radix_value b (ds @ [c]) = radix_value b ds * int b + int (digit_value c)"
  by (simp add: radix_value_def)

lemma radix_value_append:
  "radix_value b (xs @ ys) = radix_value b xs * int b ^ length ys + radix_value b ys"
proof (induction ys rule: rev_induct)
  case Nil
  then show ?case by (simp add: radix_value_Nil)
next
  case (snoc y ys)
  have "radix_value b (xs @ ys @ [y]) = radix_value b ((xs @ ys) @ [y])" by simp
  also have "\<dots> = radix_value b (xs @ ys) * int b + int (digit_value y)"
    by (rule radix_value_snoc)
  finally show ?case by (simp add: snoc.IH radix_value_snoc algebra_simps)
qed

lemma radix_value_nonneg: "0 \<le> radix_value b ds"
  by (induction ds rule: rev_induct) (simp_all add: radix_value_Nil radix_value_snoc)

lemma radix_value_less:
  "list_all (is_radix_digit b) ds \<Longrightarrow> radix_value b ds < int b ^ length ds"
proof (induction ds rule: rev_induct)
  case Nil
  then show ?case by (simp add: radix_value_Nil)
next
  case (snoc d ds)
  then have a: "radix_value b ds < int b ^ length ds" and d: "digit_value d < b"
    by (simp_all add: is_radix_digit_def Let_def)
  from a have "radix_value b ds + 1 \<le> int b ^ length ds" by simp
  then have le: "(radix_value b ds + 1) * int b \<le> int b ^ length ds * int b"
    by (rule mult_right_mono) simp
  from d have "radix_value b ds * int b + int (digit_value d) < (radix_value b ds + 1) * int b"
    by (simp add: algebra_simps)
  also note le
  finally show ?case by (simp add: radix_value_snoc mult.commute)
qed

lemma radix_value_zeros: "radix_value b (replicate k CHR ''0'' @ ds) = radix_value b ds"
proof -
  have "foldl (\<lambda>a c. a * int b + int (digit_value c)) 0 (replicate k CHR ''0'') = 0"
    by (induction k) (simp_all add: digit_value_def code_unit_def)
  then show ?thesis by (simp add: radix_value_def)
qed

text \<open>The decimal digits of a non-negative integer read back as that integer.\<close>

lemma digits_of_digits: "0 \<le> n \<Longrightarrow> list_all is_digit (digits_of n)"
proof (induction n rule: digits_of.induct)
  case (1 n)
  show ?case
  proof (cases "n < 10")
    case True
    with "1.prems" show ?thesis
      by (subst digits_of.simps) (simp add: is_digit_digit_char)
  next
    case False
    with "1" have "list_all is_digit (digits_of (n div 10))" by simp
    moreover have "nat (n mod 10) < 10" by simp
    ultimately show ?thesis using False
      by (subst digits_of.simps) (simp add: is_digit_digit_char)
  qed
qed

lemma digits_of_not_Nil: "digits_of n \<noteq> []"
  by (subst digits_of.simps) simp

lemma radix_value_digits_of: "0 \<le> n \<Longrightarrow> radix_value 10 (digits_of n) = n"
proof (induction n rule: digits_of.induct)
  case (1 n)
  show ?case
  proof (cases "n < 10")
    case True
    with "1.prems" show ?thesis
      by (subst digits_of.simps) (simp add: radix_value_def digit_value_digit_char)
  next
    case False
    with "1" have "radix_value 10 (digits_of (n div 10)) = n div 10" by simp
    moreover have "nat (n mod 10) < 10" by simp
    ultimately show ?thesis using False
      by (subst digits_of.simps) (simp add: radix_value_snoc digit_value_digit_char)
  qed
qed

lemma length_digits_of: "0 < p \<Longrightarrow> n < 10 ^ p \<Longrightarrow> length (digits_of n) \<le> p"
proof (induction n arbitrary: p rule: digits_of.induct)
  case (1 n)
  show ?case
  proof (cases "n < 10")
    case True
    with "1.prems" show ?thesis by (subst digits_of.simps) simp
  next
    case False
    with "1.prems" obtain q where p: "p = Suc q" by (cases p) auto
    from False "1.prems" p have q: "0 < q" by (cases q) auto
    from "1.prems" p have "n < 10 ^ q * 10" by (simp add: mult.commute)
    then have "n div 10 < 10 ^ q" by linarith
    with "1.IH" False q have "length (digits_of (n div 10)) \<le> q" by simp
    with False p show ?thesis by (subst digits_of.simps) simp
  qed
qed

subsection \<open>Reading numerals with BigInt\<close>

lemma trim_id:
  "s \<noteq> [] \<Longrightarrow> \<not> is_space (hd s) \<Longrightarrow> \<not> is_space (last s) \<Longrightarrow> trim s = s"
proof -
  assume s: "s \<noteq> []" and h: "\<not> is_space (hd s)" and l: "\<not> is_space (last s)"
  from s h have 1: "dropWhile is_space s = s" by (cases s) auto
  from s l have "\<not> is_space (hd (rev s))" by (simp add: hd_rev)
  with s have 2: "dropWhile is_space (rev s) = rev s" by (cases "rev s") auto
  show ?thesis by (simp add: trim_def 1 2)
qed

lemma set_trim: "set (trim s) \<subseteq> set s"
proof -
  have "set (dropWhile is_space (rev (dropWhile is_space s))) \<subseteq> set (rev (dropWhile is_space s))"
    by (meson set_dropWhileD subsetI)
  also have "\<dots> \<subseteq> set s" using set_dropWhileD by fastforce
  finally show ?thesis by (simp add: trim_def)
qed

lemma is_digit_not_space: "is_digit c \<Longrightarrow> \<not> is_space c"
  by (auto simp: is_digit_def is_space_def)

lemma BigInt_digits:
  assumes "ds \<noteq> []" and "list_all is_digit ds"
  shows "BigInt ds = Inr (radix_value 10 ds)"
proof -
  from assms have "is_digit (hd ds)" and "is_digit (last ds)"
    by (simp_all add: list_all_iff)
  with assms have t: "trim ds = ds" by (simp add: trim_id is_digit_not_space)
  have no: "take 2 ds \<noteq> [a, c]" if "\<not> is_digit c" for a c
  proof
    assume "take 2 ds = [a, c]"
    then have "c \<in> set (take 2 ds)" by simp
    then have "c \<in> set ds" by (rule in_set_takeD)
    with assms that show False by (simp add: list_all_iff)
  qed
  have h: "hd ds \<noteq> c" if "\<not> is_digit c" for c
    using \<open>is_digit (hd ds)\<close> that by auto
  from assms have n: "numeral_of 10 ds = Inr (radix_value 10 ds)"
    by (simp add: numeral_of_def is_radix_digit_10 list_all_iff)
  show ?thesis
    unfolding BigInt_def Let_def t
    using assms(1) n by (simp add: no h is_digit_def code_unit_def)
qed

lemma numeral_of_nonneg: "numeral_of b ds = Inr n \<Longrightarrow> 0 \<le> n"
  by (auto simp: numeral_of_def radix_value_nonneg split: if_splits)

lemma BigInt_nonneg:
  assumes "BigInt s = Inr n" and "CHR ''-'' \<notin> set s"
  shows "0 \<le> n"
proof -
  have "hd (trim s) \<noteq> CHR ''-''" if "trim s \<noteq> []"
  proof -
    from that have "hd (trim s) \<in> set (trim s)" by simp
    with set_trim have "hd (trim s) \<in> set s" by blast
    with assms(2) show ?thesis by auto
  qed
  with assms(1) show ?thesis
    by (auto simp: BigInt_def Let_def split: if_splits dest: numeral_of_nonneg)
qed

lemma BigInt_or_zero:
  assumes "list_all is_digit ds"
  shows "BigInt (or_else (Some ds) ''0'') = Inr (radix_value 10 ds)"
proof (cases "ds = []")
  case True
  have "BigInt ''0'' = Inr 0" by code_simp
  with True show ?thesis by (simp add: or_else_def radix_value_Nil)
next
  case False
  with assms show ?thesis by (simp add: or_else_def BigInt_digits)
qed

lemma is_digit_zeros: "list_all is_digit (replicate k CHR ''0'')"
  by (simp add: list_all_iff is_digit_def code_unit_def)

text \<open>\<^verbatim>\<open>BigInt(n.toString())\<close> is \<open>n\<close>, for every \<^verbatim>\<open>BigInt\<close> \<open>n\<close>.\<close>

lemma BigInt_toString: "BigInt (bigint_toString n) = Inr n"
proof (cases "n < 0")
  case False
  then have "0 \<le> n" by simp
  then show ?thesis
    using False
    by (simp add: bigint_toString_def BigInt_digits digits_of_digits digits_of_not_Nil
        radix_value_digits_of)
next
  case True
  let ?ds = "digits_of (- n)"
  from True have pos: "0 \<le> - n" by simp
  have ds: "list_all is_digit ?ds" using pos by (rule digits_of_digits)
  have ne: "?ds \<noteq> []" by (rule digits_of_not_Nil)
  have "\<not> is_space CHR ''-''" by (simp add: is_space_def code_unit_def)
  moreover from ds ne have "\<not> is_space (last (CHR ''-'' # ?ds))"
    by (simp add: list_all_iff is_digit_not_space)
  ultimately have t: "trim (CHR ''-'' # ?ds) = CHR ''-'' # ?ds" by (simp add: trim_id)
  have no: "take 2 (CHR ''-'' # ?ds) \<noteq> [CHR ''0'', c]" for c
    by (cases ?ds) simp_all
  from ds ne have n: "numeral_of 10 ?ds = Inr (radix_value 10 ?ds)"
    by (simp add: numeral_of_def is_radix_digit_10 list_all_iff)
  have "BigInt (CHR ''-'' # ?ds) = Inr (- radix_value 10 ?ds)"
    unfolding BigInt_def Let_def t by (simp add: no n)
  with True pos show ?thesis
    by (simp add: bigint_toString_def radix_value_digits_of)
qed

subsection \<open>Splitting at the decimal point\<close>

lemma split_on_not_Nil: "split_on d s \<noteq> []"
  by (induction s) (auto split: list.splits)

lemma split_on_none: "d \<notin> set a \<Longrightarrow> split_on d a = [a]"
  by (induction a) auto

lemma split_on_first: "d \<notin> set a \<Longrightarrow> split_on d (a @ d # b) = a # split_on d b"
  by (induction a) auto

lemma split_on_subset: "p \<in> set (split_on d s) \<Longrightarrow> set p \<subseteq> set s"
proof (induction s arbitrary: p)
  case Nil
  then show ?case by simp
next
  case (Cons c cs)
  show ?case
  proof (cases "c = d")
    case True
    with Cons show ?thesis by auto
  next
    case False
    obtain q qs where q: "split_on d cs = q # qs"
      using split_on_not_Nil [of d cs] by (cases "split_on d cs") auto
    with False Cons.prems have "p = c # q \<or> p \<in> set qs" by simp
    then show ?thesis
    proof
      assume "p = c # q"
      moreover have "set q \<subseteq> set cs" using Cons.IH [of q] q by simp
      ultimately show ?thesis by auto
    next
      assume "p \<in> set qs"
      then have "set p \<subseteq> set cs" using Cons.IH [of p] q by simp
      then show ?thesis by auto
    qed
  qed
qed

lemma is_digit_not_dot: "list_all is_digit ds \<Longrightarrow> CHR ''.'' \<notin> set ds"
  by (auto simp: list_all_iff is_digit_def code_unit_def)

lemma element_in_set: "element xs i = Some x \<Longrightarrow> x \<in> set xs"
  by (auto simp: element_def split: if_splits)

section \<open>Facts about the unit conversion\<close>

lemma toUnit6_eq: "toUnit6 = toMinorUnits 6"
  by (rule ext) (simp add: toUnit6_def toMinorUnits_def)

lemma toWei_eq: "toWei = toMinorUnits 18"
  by (rule ext) (simp add: toWei_def toMinorUnits_def)

lemma fromUnit6_eq: "fromUnit6 = fromMinorUnits 6"
  by (rule ext) (simp add: fromUnit6_def fromMinorUnits_def)

lemma fromWei_eq: "fromWei = fromMinorUnits 18"
  by (rule ext) (simp add: fromWei_def fromMinorUnits_def)

text \<open>The value computed for a decimal string with a point, and without one.\<close>

lemma toMinorUnits_point:
  assumes ip: "list_all is_digit ip" and fp: "list_all is_digit fp"
  shows "toMinorUnits p (ip @ ''.'' @ fp) =
         Inr (radix_value 10 ip * 10 ^ p
              + radix_value 10 (take p (fp @ replicate (p - length fp) CHR ''0'')))"
proof -
  define frac where "frac = take p (fp @ replicate (p - length fp) CHR ''0'')"
  from fp have dot: "CHR ''.'' \<notin> set fp" by (rule is_digit_not_dot)
  from ip have "CHR ''.'' \<notin> set ip" by (rule is_digit_not_dot)
  then have parts: "split_on CHR ''.'' (ip @ ''.'' @ fp) = [ip, fp]"
    using dot by (simp add: split_on_first split_on_none)
  have frac_eq: "slice 0 p (padEnd p CHR ''0'' (or_else (Some fp) [])) = frac"
    by (simp add: slice_def padEnd_def or_else_def frac_def)
  have "list_all is_digit frac"
    unfolding frac_def
    using fp is_digit_zeros [of "p - length fp"] by (auto simp: list_all_iff dest: in_set_takeD)
  then have frac_part: "BigInt (or_else (Some frac) ''0'') = Inr (radix_value 10 frac)"
    by (rule BigInt_or_zero)
  have "toMinorUnits p (ip @ ''.'' @ fp) = Inr (radix_value 10 ip * 10 ^ p + radix_value 10 frac)"
    unfolding toMinorUnits_def Let_def parts
    by (simp add: element_def frac_eq BigInt_or_zero [OF ip] frac_part del: append.simps)
  then show ?thesis by (simp only: frac_def)
qed

text \<open>A minus sign before the integer part is read with the integer part only.\<close>

lemma BigInt_minus_digits:
  assumes ne: "ds \<noteq> []" and ds: "list_all is_digit ds"
  shows "BigInt (CHR ''-'' # ds) = Inr (- radix_value 10 ds)"
proof -
  have "\<not> is_space CHR ''-''" by (simp add: is_space_def code_unit_def)
  moreover from ds ne have "\<not> is_space (last (CHR ''-'' # ds))"
    by (simp add: list_all_iff is_digit_not_space)
  ultimately have t: "trim (CHR ''-'' # ds) = CHR ''-'' # ds" by (simp add: trim_id)
  have no: "take 2 (CHR ''-'' # ds) \<noteq> [CHR ''0'', c]" for c
    by (cases ds) simp_all
  from ds ne have n: "numeral_of 10 ds = Inr (radix_value 10 ds)"
    by (simp add: numeral_of_def is_radix_digit_10 list_all_iff)
  show ?thesis unfolding BigInt_def Let_def t by (simp add: no n)
qed

lemma toMinorUnits_minus_point:
  assumes ne: "ip \<noteq> []" and ip: "list_all is_digit ip" and fp: "list_all is_digit fp"
  shows "toMinorUnits p (''-'' @ ip @ ''.'' @ fp) =
         Inr (- radix_value 10 ip * 10 ^ p
              + radix_value 10 (take p (fp @ replicate (p - length fp) CHR ''0'')))"
proof -
  define frac where "frac = take p (fp @ replicate (p - length fp) CHR ''0'')"
  from fp have dot: "CHR ''.'' \<notin> set fp" by (rule is_digit_not_dot)
  from ip have "CHR ''.'' \<notin> set (CHR ''-'' # ip)" using is_digit_not_dot [of ip] by simp
  then have "split_on CHR ''.'' ((CHR ''-'' # ip) @ CHR ''.'' # fp) = (CHR ''-'' # ip) # split_on CHR ''.'' fp"
    by (rule split_on_first)
  with dot have parts: "split_on CHR ''.'' (''-'' @ ip @ ''.'' @ fp) = [CHR ''-'' # ip, fp]"
    by (simp add: split_on_none)
  have frac_eq: "slice 0 p (padEnd p CHR ''0'' (or_else (Some fp) [])) = frac"
    by (simp add: slice_def padEnd_def or_else_def frac_def)
  have "list_all is_digit frac"
    unfolding frac_def
    using fp is_digit_zeros [of "p - length fp"] by (auto simp: list_all_iff dest: in_set_takeD)
  then have frac_part: "BigInt (or_else (Some frac) ''0'') = Inr (radix_value 10 frac)"
    by (rule BigInt_or_zero)
  have int_part: "BigInt (or_else (Some (CHR ''-'' # ip)) ''0'') = Inr (- radix_value 10 ip)"
    using BigInt_minus_digits [OF ne ip] by (simp add: or_else_def)
  have "toMinorUnits p (''-'' @ ip @ ''.'' @ fp) = Inr (- radix_value 10 ip * 10 ^ p + radix_value 10 frac)"
    unfolding toMinorUnits_def Let_def parts
    by (simp add: element_def frac_eq int_part frac_part del: append.simps)
  then show ?thesis by (simp only: frac_def)
qed

lemma toMinorUnits_whole:
  assumes ip: "list_all is_digit ip"
  shows "toMinorUnits p ip = Inr (radix_value 10 ip * 10 ^ p)"
proof -
  from ip have "CHR ''.'' \<notin> set ip" by (rule is_digit_not_dot)
  then have parts: "split_on CHR ''.'' ip = [ip]" by (rule split_on_none)
  have frac_eq: "slice 0 p (padEnd p CHR ''0'' (or_else None [])) = replicate p CHR ''0''"
    by (simp add: slice_def padEnd_def or_else_def)
  have frac_part: "BigInt (or_else (Some (replicate p CHR ''0'')) ''0'') = Inr 0"
    using BigInt_or_zero [OF is_digit_zeros, of p] radix_value_zeros [of 10 p "[]"]
    by (simp add: radix_value_Nil)
  show ?thesis
    unfolding toMinorUnits_def Let_def parts
    by (simp add: element_def frac_eq BigInt_or_zero [OF ip] frac_part)
qed

text \<open>Padding and cutting the fraction digits is the floor of the scaled fraction.\<close>

lemma fraction_truncated:
  assumes fp: "list_all is_digit fp"
  shows "radix_value 10 (take p (fp @ replicate (p - length fp) CHR ''0''))
         = radix_value 10 fp * 10 ^ p div 10 ^ length fp"
proof (cases "length fp \<le> p")
  case True
  then have "take p (fp @ replicate (p - length fp) CHR ''0'') = fp @ replicate (p - length fp) CHR ''0''"
    by simp
  moreover have "radix_value 10 (fp @ replicate (p - length fp) CHR ''0'')
                 = radix_value 10 fp * 10 ^ (p - length fp)"
    using radix_value_zeros [of 10 "p - length fp" "[]"]
    by (simp add: radix_value_append radix_value_Nil)
  moreover from True have "(10::int) ^ p = 10 ^ (p - length fp) * 10 ^ length fp"
    by (simp flip: power_add)
  ultimately show ?thesis by simp
next
  case False
  then have lt: "p < length fp" by simp
  let ?hi = "radix_value 10 (take p fp)" and ?lo = "radix_value 10 (drop p fp)"
  let ?k = "length fp - p"
  have split: "radix_value 10 fp = ?hi * 10 ^ ?k + ?lo"
    using radix_value_append [of 10 "take p fp" "drop p fp"] by simp
  from fp have "list_all (is_radix_digit 10) (drop p fp)"
    by (auto simp: list_all_iff is_radix_digit_10 dest: in_set_dropD)
  then have lo: "?lo < 10 ^ ?k" using radix_value_less [of 10 "drop p fp"] by simp
  have lo0: "0 \<le> ?lo" by (rule radix_value_nonneg)
  from lt have pw: "(10::int) ^ length fp = 10 ^ ?k * 10 ^ p" by (simp flip: power_add)
  have "radix_value 10 fp * 10 ^ p div 10 ^ length fp = radix_value 10 fp div 10 ^ ?k"
    unfolding pw by simp
  also have "\<dots> = ?hi" using lo lo0 by (simp add: split)
  finally show ?thesis using lt by simp
qed

text \<open>Writing a non-negative amount and reading it back.\<close>

lemma bigint_div_nonneg: "0 \<le> a \<Longrightarrow> 0 < b \<Longrightarrow> bigint_div a b = a div b"
  by (cases "a = 0") (simp_all add: bigint_div_def)

lemma bigint_rem_nonneg: "0 \<le> a \<Longrightarrow> 0 < b \<Longrightarrow> bigint_rem a b = a mod b"
  by (cases "a = 0") (simp_all add: bigint_rem_def)

lemma fromMinorUnits_nonneg:
  assumes "0 \<le> x"
  shows "fromMinorUnits p x =
         digits_of (x div 10 ^ p) @ ''.'' @ padStart p CHR ''0'' (digits_of (x mod 10 ^ p))"
proof -
  from assms have "\<not> x div 10 ^ p < 0" by (simp add: not_less pos_imp_zdiv_nonneg_iff)
  moreover have "\<not> x mod 10 ^ p < 0" by (simp add: not_less)
  ultimately show ?thesis
    using assms
    by (simp add: fromMinorUnits_def Let_def bigint_div_nonneg bigint_rem_nonneg
        bigint_toString_def)
qed

lemma roundtrip:
  assumes x: "0 \<le> x" and p: "0 < p"
  shows "toMinorUnits p (fromMinorUnits p x) = Inr x"
proof -
  define hi where "hi = x div 10 ^ p"
  define lo where "lo = x mod 10 ^ p"
  define fp where "fp = padStart p CHR ''0'' (digits_of lo)"
  from x have hi0: "0 \<le> hi" by (simp add: hi_def pos_imp_zdiv_nonneg_iff)
  have lo0: "0 \<le> lo" and lo_less: "lo < 10 ^ p" by (simp_all add: lo_def)
  with p have len: "length (digits_of lo) \<le> p" by (simp add: length_digits_of)
  then have fp_len: "length fp = p" by (simp add: fp_def padStart_def)
  have fp_digits: "list_all is_digit fp"
    using is_digit_zeros [of "p - length (digits_of lo)"] digits_of_digits [OF lo0]
    by (simp add: fp_def padStart_def)
  have fp_value: "radix_value 10 fp = lo"
    using lo0 by (simp add: fp_def padStart_def radix_value_zeros radix_value_digits_of)
  have "toMinorUnits p (digits_of hi @ ''.'' @ fp) =
        Inr (radix_value 10 (digits_of hi) * 10 ^ p
             + radix_value 10 (take p (fp @ replicate (p - length fp) CHR ''0'')))"
    using digits_of_digits [OF hi0] fp_digits by (rule toMinorUnits_point)
  then have "toMinorUnits p (digits_of hi @ ''.'' @ fp) = Inr (hi * 10 ^ p + lo)"
    using hi0 by (simp add: fp_len fp_value radix_value_digits_of)
  moreover from x have "fromMinorUnits p x = digits_of hi @ ''.'' @ fp"
    by (simp add: fromMinorUnits_nonneg hi_def lo_def fp_def)
  ultimately show ?thesis by (simp add: hi_def lo_def div_mult_mod_eq)
qed

text \<open>Without a minus sign in the input, no negative amount comes out.\<close>

lemma toMinorUnits_nonneg:
  assumes r: "toMinorUnits p s = Inr n" and m: "CHR ''-'' \<notin> set s"
  shows "0 \<le> n"
proof -
  let ?parts = "split_on CHR ''.'' s"
  let ?ip = "or_else (element ?parts 0) ''0''"
  let ?fp = "or_else (Some (slice 0 p (padEnd p CHR ''0'' (or_else (element ?parts 1) [])))) ''0''"
  have part: "CHR ''-'' \<notin> set q" if "element ?parts i = Some q" for i q
  proof -
    from that have "q \<in> set ?parts" by (rule element_in_set)
    then have "set q \<subseteq> set s" by (rule split_on_subset)
    with m show ?thesis by auto
  qed
  have ip: "CHR ''-'' \<notin> set ?ip"
    using part [of 0] by (auto simp: or_else_def split: option.splits if_splits)
  have raw: "CHR ''-'' \<notin> set (or_else (element ?parts 1) [])"
    using part [of 1] by (auto simp: or_else_def split: option.splits if_splits)
  have "set (slice 0 p (padEnd p CHR ''0'' (or_else (element ?parts 1) [])))
        \<subseteq> set (or_else (element ?parts 1) []) \<union> {CHR ''0''}"
    by (auto simp: slice_def padEnd_def dest!: in_set_takeD)
  with raw have fp: "CHR ''-'' \<notin> set ?fp"
    by (auto simp: or_else_def)
  from r obtain i f where i: "BigInt ?ip = Inr i" and f: "BigInt ?fp = Inr f"
    and n: "n = i * 10 ^ p + f"
    by (auto simp: toMinorUnits_def Let_def split: sum.splits)
  from i ip have "0 \<le> i" by (rule BigInt_nonneg)
  moreover from f fp have "0 \<le> f" by (rule BigInt_nonneg)
  ultimately show ?thesis by (simp add: n)
qed

section \<open>Unit conversion: the claims\<close>

text \<open>
  C3. For every non-negative integer \<open>x\<close>, writing \<open>x\<close> as a decimal string at
  precision 6 (\<open>fromUnit6\<close>) or 18 (\<open>fromWei\<close>) and reading the string back at the same
  precision (\<open>toUnit6\<close>, \<open>toWei\<close>) does not throw and returns exactly \<open>x\<close>.
\<close>

theorem minor_units_roundtrip:
  "0 \<le> x \<Longrightarrow> toUnit6 (fromUnit6 x) = Inr x \<and> toWei (fromWei x) = Inr x"
  by (simp add: toUnit6_eq fromUnit6_eq toWei_eq fromWei_eq roundtrip)

theorem minor_units_roundtrip_witness:
  "(0::int) \<le> 1234567 \<and> toUnit6 (fromUnit6 1234567) = Inr 1234567
   \<and> toWei (fromWei 1234567) = Inr 1234567"
  using minor_units_roundtrip [of 1234567] by simp

text \<open>
  C6. On a decimal string (digits, a point, digits) \<open>toUnit6\<close> and \<open>toWei\<close> return the
  integer part times \<open>10^precision\<close> plus the fraction digits padded on the right with
  zeros to the precision and cut to the precision; the number read from the padded and cut
  digits is the floor of the fraction scaled by \<open>10^precision\<close>, so digits beyond the
  precision are dropped and never rounded. A string without a point is the integer part
  alone, and a minus sign before the integer part negates the integer part only. In
  particular \<^verbatim>\<open>toUnit6("1.2345678")\<close> is 1234567 and \<^verbatim>\<open>toUnit6("5")\<close> is 5000000.
\<close>

theorem to_minor_units_decimal:
  assumes "list_all is_digit ip" and "list_all is_digit fp"
  shows "toUnit6 (ip @ ''.'' @ fp) =
           Inr (radix_value 10 ip * 10 ^ 6
                + radix_value 10 (take 6 (fp @ replicate (6 - length fp) CHR ''0'')))
       \<and> toWei (ip @ ''.'' @ fp) =
           Inr (radix_value 10 ip * 10 ^ 18
                + radix_value 10 (take 18 (fp @ replicate (18 - length fp) CHR ''0'')))
       \<and> radix_value 10 (take 6 (fp @ replicate (6 - length fp) CHR ''0''))
           = radix_value 10 fp * 10 ^ 6 div 10 ^ length fp
       \<and> radix_value 10 (take 18 (fp @ replicate (18 - length fp) CHR ''0''))
           = radix_value 10 fp * 10 ^ 18 div 10 ^ length fp
       \<and> toUnit6 ip = Inr (radix_value 10 ip * 10 ^ 6)
       \<and> toWei ip = Inr (radix_value 10 ip * 10 ^ 18)
       \<and> (ip \<noteq> [] \<longrightarrow>
            toUnit6 (''-'' @ ip @ ''.'' @ fp) =
              Inr (- radix_value 10 ip * 10 ^ 6
                   + radix_value 10 (take 6 (fp @ replicate (6 - length fp) CHR ''0'')))
          \<and> toWei (''-'' @ ip @ ''.'' @ fp) =
              Inr (- radix_value 10 ip * 10 ^ 18
                   + radix_value 10 (take 18 (fp @ replicate (18 - length fp) CHR ''0''))))
       \<and> toUnit6 ''1.2345678'' = Inr 1234567
       \<and> toUnit6 ''5'' = Inr 5000000"
proof -
  have g: "toUnit6 (''-'' @ ip @ ''.'' @ fp) =
              Inr (- radix_value 10 ip * 10 ^ 6
                   + radix_value 10 (take 6 (fp @ replicate (6 - length fp) CHR ''0'')))"
    if "ip \<noteq> []"
    unfolding toUnit6_eq using that assms by (rule toMinorUnits_minus_point)
  have h: "toWei (''-'' @ ip @ ''.'' @ fp) =
              Inr (- radix_value 10 ip * 10 ^ 18
                   + radix_value 10 (take 18 (fp @ replicate (18 - length fp) CHR ''0'')))"
    if "ip \<noteq> []"
    unfolding toWei_eq using that assms by (rule toMinorUnits_minus_point)
  have a: "toUnit6 (ip @ ''.'' @ fp) =
           Inr (radix_value 10 ip * 10 ^ 6
                + radix_value 10 (take 6 (fp @ replicate (6 - length fp) CHR ''0'')))"
    unfolding toUnit6_eq using assms by (rule toMinorUnits_point)
  have b: "toWei (ip @ ''.'' @ fp) =
           Inr (radix_value 10 ip * 10 ^ 18
                + radix_value 10 (take 18 (fp @ replicate (18 - length fp) CHR ''0'')))"
    unfolding toWei_eq using assms by (rule toMinorUnits_point)
  have c: "toUnit6 ip = Inr (radix_value 10 ip * 10 ^ 6)"
    unfolding toUnit6_eq using assms(1) by (rule toMinorUnits_whole)
  have d: "toWei ip = Inr (radix_value 10 ip * 10 ^ 18)"
    unfolding toWei_eq using assms(1) by (rule toMinorUnits_whole)
  have e: "toUnit6 ''1.2345678'' = Inr 1234567" by code_simp
  have f: "toUnit6 ''5'' = Inr 5000000" by code_simp
  from a b c d e f g h
    fraction_truncated [OF assms(2), of 6] fraction_truncated [OF assms(2), of 18]
  show ?thesis by blast
qed

theorem to_minor_units_decimal_witness:
  "list_all is_digit ''12'' \<and> list_all is_digit ''3456789''
   \<and> toUnit6 ''12.3456789'' = Inr 12345678
   \<and> toWei ''12.3456789'' = Inr 12345678900000000000
   \<and> radix_value 10 ''345678'' = 3456789 * 10 ^ 6 div 10 ^ 7
   \<and> toUnit6 ''12'' = Inr 12000000
   \<and> toUnit6 ''-12.3456789'' = Inr (- 11654322)"
proof -
  have ip: "list_all is_digit ''12''" and fp: "list_all is_digit ''3456789''"
    by (simp_all add: is_digit_def code_unit_def)
  have v: "radix_value 10 ''12'' = 12" "radix_value 10 ''3456789'' = 3456789"
    "radix_value 10 ''345678'' = 345678"
    "radix_value 10 ''345678900000000000'' = 345678900000000000"
    by (simp_all add: radix_value_def digit_value_def code_unit_def)
  from to_minor_units_decimal [OF ip fp] ip fp show ?thesis
    by (simp add: v)
qed

text \<open>
  C9, as the specification states it, fails: \<^verbatim>\<open>toUnit6("-1")\<close> is accepted and returns
  the negative amount \<open>-1000000\<close>.
\<close>

theorem to_minor_units_negative:
  "toUnit6 ''-1'' = Inr (- 1000000) \<and> (- 1000000 :: int) < 0"
  by (simp add: toUnit6_eq) code_simp

text \<open>
  C9, amended. For every input string without a minus sign that \<open>toUnit6\<close> or \<open>toWei\<close>
  accepts, the returned amount is not negative.
\<close>

theorem to_minor_units_nonneg:
  "CHR ''-'' \<notin> set s \<Longrightarrow>
     (toUnit6 s = Inr n \<longrightarrow> 0 \<le> n) \<and> (toWei s = Inr m \<longrightarrow> 0 \<le> m)"
  unfolding toUnit6_eq toWei_eq by (blast intro: toMinorUnits_nonneg)

theorem to_minor_units_nonneg_witness:
  "CHR ''-'' \<notin> set ''1.5'' \<and> toUnit6 ''1.5'' = Inr 1500000
   \<and> toWei ''1.5'' = Inr 1500000000000000000
   \<and> (0::int) \<le> 1500000 \<and> (0::int) \<le> 1500000000000000000"
proof -
  have s: "CHR ''-'' \<notin> set ''1.5''" by simp
  have a: "toUnit6 ''1.5'' = Inr 1500000" by code_simp
  have b: "toWei ''1.5'' = Inr 1500000000000000000" by code_simp
  from to_minor_units_nonneg [OF s, of 1500000 1500000000000000000] s a b
  show ?thesis by blast
qed

section \<open>Facts about the validators\<close>

lemma or_else_Some_empty: "or_else (Some s) [] = s"
  by (simp add: or_else_def)

lemma bigint_toString_not_Nil: "bigint_toString n \<noteq> []"
  by (simp add: bigint_toString_def digits_of_not_Nil)

text \<open>\<^verbatim>\<open>BigInt(tx.value?.toString() || '0')\<close> never throws.\<close>

lemma BigInt_tx_value:
  "BigInt (or_else (map_option bigint_toString v) ''0'') = Inr (case v of None \<Rightarrow> 0 | Some x \<Rightarrow> x)"
proof (cases v)
  case None
  have "BigInt ''0'' = Inr 0" by code_simp
  with None show ?thesis by (simp add: or_else_def)
next
  case (Some x)
  then show ?thesis by (simp add: or_else_def bigint_toString_not_Nil BigInt_toString)
qed

lemma toLowerCase_Nil: "toLowerCase s = [] \<longleftrightarrow> s = []"
  by (simp add: toLowerCase_def)

text \<open>A transfer is matched on a chain with a token address only.\<close>

lemma matchTransferLog_configured:
  "matchTransferLog cfg iface who ls = Some m \<Longrightarrow> tokenAddress cfg \<noteq> []"
proof (induction ls)
  case Nil
  then show ?case by simp
next
  case (Cons l ls)
  show ?case
  proof (cases "log_address l = [] \<or> toLowerCase (log_address l) \<noteq> toLowerCase (tokenAddress cfg)")
    case True
    with Cons show ?thesis by simp
  next
    case False
    then have "log_address l \<noteq> []"
      and "toLowerCase (log_address l) = toLowerCase (tokenAddress cfg)" by simp_all
    then show ?thesis
      using toLowerCase_Nil [of "log_address l"] toLowerCase_Nil [of "tokenAddress cfg"]
      by auto
  qed
qed

lemma matchTransferInput_configured:
  assumes "matchTransferInput cfg who tx = Inr (Some m)"
  shows "tokenAddress cfg \<noteq> []"
proof (cases tx)
  case None
  with assms show ?thesis by (simp add: matchTransferInput_def)
next
  case (Some x)
  with assms have "case tx_to x of
                     None \<Rightarrow> False
                   | Some t \<Rightarrow> t \<noteq> [] \<and> toLowerCase t = toLowerCase (tokenAddress cfg)"
    by (simp add: matchTransferInput_def split: if_splits)
  then obtain t where "t \<noteq> []" and "toLowerCase t = toLowerCase (tokenAddress cfg)"
    by (cases "tx_to x") auto
  then show ?thesis
    using toLowerCase_Nil [of t] toLowerCase_Nil [of "tokenAddress cfg"] by auto
qed

lemma matchTransfer_configured:
  "matchTransfer cfg iface provider hash who receipt = Inr (Some m) \<Longrightarrow> tokenAddress cfg \<noteq> []"
  by (auto simp: matchTransfer_def split: option.splits
      dest: matchTransferLog_configured matchTransferInput_configured)

text \<open>The token validator, stage by stage.\<close>

lemma usdc_not_configured:
  "tokenAddress (UsdcService_getChainConfig this chain) = [] \<Longrightarrow>
   UsdcService_validateIncomingTransfer this net iface chain hash expected who =
     Inr \<lparr>ok = False, reason = Some ''Token address not configured'', txHash = None,
          confirmations = None, sender = None, to = None, amount6 = None\<rparr>"
  by (simp add: UsdcService_validateIncomingTransfer_def)

lemma usdc_reverted:
  "tokenAddress (UsdcService_getChainConfig this chain) \<noteq> [] \<Longrightarrow>
   waitForTransaction (UsdcService_getProvider net this chain) hash = Some receipt \<Longrightarrow>
   status receipt \<noteq> Some 1 \<Longrightarrow>
   UsdcService_validateIncomingTransfer this net iface chain hash expected who =
     Inr \<lparr>ok = False, reason = Some ''Transaction reverted'', txHash = Some hash,
          confirmations = None, sender = None, to = None, amount6 = None\<rparr>"
  by (simp add: UsdcService_validateIncomingTransfer_def)

lemma usdc_matched:
  assumes "tokenAddress (UsdcService_getChainConfig this chain) \<noteq> []"
    and "waitForTransaction (UsdcService_getProvider net this chain) hash = Some receipt"
    and "status receipt = Some 1"
    and "matchTransfer (UsdcService_getChainConfig this chain) iface
           (UsdcService_getProvider net this chain) hash who receipt = Inr (Some m)"
  shows "UsdcService_validateIncomingTransfer this net iface chain hash expected who =
     (if m_value m \<noteq> expected
      then Inr \<lparr>ok = False, reason = Some ''Amount mismatch'', txHash = Some hash,
                confirmations = None, sender = None, to = None, amount6 = None\<rparr>
      else if getBlockNumber (UsdcService_getProvider net this chain)
                - (case blockNumber receipt of
                     None \<Rightarrow> getBlockNumber (UsdcService_getProvider net this chain)
                   | Some b \<Rightarrow> b) + 1 < 1
      then Inr \<lparr>ok = False, reason = Some ''Not enough confirmations'', txHash = Some hash,
                confirmations = Some (getBlockNumber (UsdcService_getProvider net this chain)
                  - (case blockNumber receipt of
                       None \<Rightarrow> getBlockNumber (UsdcService_getProvider net this chain)
                     | Some b \<Rightarrow> b) + 1),
                sender = None, to = None, amount6 = None\<rparr>
      else Inr \<lparr>ok = True, reason = None, txHash = Some hash,
                confirmations = Some (getBlockNumber (UsdcService_getProvider net this chain)
                  - (case blockNumber receipt of
                       None \<Rightarrow> getBlockNumber (UsdcService_getProvider net this chain)
                     | Some b \<Rightarrow> b) + 1),
                sender = Some (m_from m), to = Some (m_to m), amount6 = Some (m_value m)\<rparr>)"
  using assms by (simp add: UsdcService_validateIncomingTransfer_def Let_def)

text \<open>A result that is a success, or a failure for too few confirmations, comes from the
  last stage.\<close>

lemma usdc_last_stage:
  assumes "UsdcService_validateIncomingTransfer this net iface chain hash expected who = Inr r"
    and "ok r \<or> reason r = Some ''Not enough confirmations''"
  shows "\<exists>receipt m.
           tokenAddress (UsdcService_getChainConfig this chain) \<noteq> []
         \<and> waitForTransaction (UsdcService_getProvider net this chain) hash = Some receipt
         \<and> status receipt = Some 1
         \<and> matchTransfer (UsdcService_getChainConfig this chain) iface
              (UsdcService_getProvider net this chain) hash who receipt = Inr (Some m)
         \<and> m_value m = expected"
  using assms
  by (auto simp: UsdcService_validateIncomingTransfer_def Let_def
      split: if_splits option.splits sum.splits)

text \<open>The native validator, stage by stage.\<close>

lemma eth_reverted:
  "waitForTransaction (EthService_getProvider net this chain) hash = Some receipt \<Longrightarrow>
   status receipt \<noteq> Some 1 \<Longrightarrow>
   EthService_validateIncomingTransfer this e net chain hash expected who =
     Inr \<lparr>ok = False, reason = Some ''Transaction reverted'', txHash = Some hash,
          confirmations = None, sender = None, to = None, amountWei = None\<rparr>"
  by (simp add: EthService_validateIncomingTransfer_def)

lemma eth_blocked:
  "waitForTransaction (EthService_getProvider net this chain) hash = Some receipt \<Longrightarrow>
   status receipt = Some 1 \<Longrightarrow>
   getTransaction (EthService_getProvider net this chain) hash = Some tx \<Longrightarrow>
   EthService_isBlockedAddress e (toLowerCase (or_else (tx_to tx) [])) \<Longrightarrow>
   EthService_validateIncomingTransfer this e net chain hash expected who =
     Inr \<lparr>ok = False, reason = Some ''Blocked recipient'', txHash = Some hash,
          confirmations = None, sender = None, to = None, amountWei = None\<rparr>"
  by (simp add: EthService_validateIncomingTransfer_def Let_def BigInt_tx_value)

lemma eth_matched:
  assumes "waitForTransaction (EthService_getProvider net this chain) hash = Some receipt"
    and "status receipt = Some 1"
    and "getTransaction (EthService_getProvider net this chain) hash = Some tx"
    and "\<not> EthService_isBlockedAddress e (toLowerCase (or_else (tx_to tx) []))"
    and "toLowerCase (or_else (tx_to tx) []) = depositWallet (EthService_getChainConfig this chain)"
    and "toLowerCase (tx_from tx) = toLowerCase who"
  shows "EthService_validateIncomingTransfer this e net chain hash expected who =
     (if (case tx_value tx of None \<Rightarrow> 0 | Some v \<Rightarrow> v) \<noteq> expected
      then Inr \<lparr>ok = False, reason = Some ''Amount mismatch'', txHash = Some hash,
                confirmations = None, sender = None, to = None, amountWei = None\<rparr>
      else if getBlockNumber (EthService_getProvider net this chain)
                - (case blockNumber receipt of
                     None \<Rightarrow> getBlockNumber (EthService_getProvider net this chain)
                   | Some b \<Rightarrow> b) + 1 < 1
      then Inr \<lparr>ok = False, reason = Some ''Not enough confirmations'', txHash = Some hash,
                confirmations = Some (getBlockNumber (EthService_getProvider net this chain)
                  - (case blockNumber receipt of
                       None \<Rightarrow> getBlockNumber (EthService_getProvider net this chain)
                     | Some b \<Rightarrow> b) + 1),
                sender = None, to = None, amountWei = None\<rparr>
      else Inr \<lparr>ok = True, reason = None, txHash = Some hash,
                confirmations = Some (getBlockNumber (EthService_getProvider net this chain)
                  - (case blockNumber receipt of
                       None \<Rightarrow> getBlockNumber (EthService_getProvider net this chain)
                     | Some b \<Rightarrow> b) + 1),
                sender = Some (toLowerCase (tx_from tx)),
                to = Some (toLowerCase (or_else (tx_to tx) [])),
                amountWei = Some (case tx_value tx of None \<Rightarrow> 0 | Some v \<Rightarrow> v)\<rparr>)"
  using assms
  by (simp add: EthService_validateIncomingTransfer_def Let_def BigInt_tx_value
      or_else_Some_empty)

lemma eth_last_stage:
  assumes "EthService_validateIncomingTransfer this e net chain hash expected who = Inr r"
    and "ok r \<or> reason r = Some ''Not enough confirmations''"
  shows "\<exists>receipt tx.
           waitForTransaction (EthService_getProvider net this chain) hash = Some receipt
         \<and> status receipt = Some 1
         \<and> getTransaction (EthService_getProvider net this chain) hash = Some tx
         \<and> \<not> EthService_isBlockedAddress e (toLowerCase (or_else (tx_to tx) []))
         \<and> toLowerCase (or_else (tx_to tx) []) = depositWallet (EthService_getChainConfig this chain)
         \<and> toLowerCase (tx_from tx) = toLowerCase who
         \<and> (case tx_value tx of None \<Rightarrow> 0 | Some v \<Rightarrow> v) = expected"
  using assms
  by (auto simp: EthService_validateIncomingTransfer_def Let_def BigInt_tx_value
      or_else_Some_empty split: if_splits option.splits)

section \<open>The validators: the claims\<close>

text \<open>
  C1. In both validators a success result carries the expected amount as its matched
  amount and a positive confirmation count, and it exists only when the matched transfer
  has exactly the expected amount; a matched transfer whose amount differs from the
  expected one, by one unit or more, gives the failure \<^verbatim>\<open>Amount mismatch\<close>. For the token
  service the matched transfer is the one found in the logs or the call data; for the
  native service it is the transaction once it passed the recipient and sender checks.
\<close>

theorem validated_amount_exact:
  "(UsdcService_validateIncomingTransfer this net iface chain hash expected who = Inr r \<longrightarrow> ok r \<longrightarrow>
      amount6 r = Some expected
      \<and> (\<exists>c. confirmations r = Some c \<and> 0 < c)
      \<and> (\<exists>receipt m.
             waitForTransaction (UsdcService_getProvider net this chain) hash = Some receipt
           \<and> matchTransfer (UsdcService_getChainConfig this chain) iface
                (UsdcService_getProvider net this chain) hash who receipt = Inr (Some m)
           \<and> m_value m = expected))
   \<and> (waitForTransaction (UsdcService_getProvider net this chain) hash = Some rc \<longrightarrow>
      status rc = Some 1 \<longrightarrow>
      matchTransfer (UsdcService_getChainConfig this chain) iface
        (UsdcService_getProvider net this chain) hash who rc = Inr (Some m) \<longrightarrow>
      m_value m \<noteq> other \<longrightarrow>
      UsdcService_validateIncomingTransfer this net iface chain hash other who =
        Inr \<lparr>ok = False, reason = Some ''Amount mismatch'', txHash = Some hash,
             confirmations = None, sender = None, to = None, amount6 = None\<rparr>)
   \<and> (EthService_validateIncomingTransfer ethis e net chain hash expectedWei who = Inr er \<longrightarrow> ok er \<longrightarrow>
      amountWei er = Some expectedWei
      \<and> (\<exists>c. confirmations er = Some c \<and> 0 < c)
      \<and> (\<exists>tx. getTransaction (EthService_getProvider net ethis chain) hash = Some tx
           \<and> (case tx_value tx of None \<Rightarrow> 0 | Some v \<Rightarrow> v) = expectedWei))
   \<and> (waitForTransaction (EthService_getProvider net ethis chain) hash = Some erc \<longrightarrow>
      status erc = Some 1 \<longrightarrow>
      getTransaction (EthService_getProvider net ethis chain) hash = Some tx \<longrightarrow>
      \<not> EthService_isBlockedAddress e (toLowerCase (or_else (tx_to tx) [])) \<longrightarrow>
      toLowerCase (or_else (tx_to tx) []) = depositWallet (EthService_getChainConfig ethis chain) \<longrightarrow>
      toLowerCase (tx_from tx) = toLowerCase who \<longrightarrow>
      (case tx_value tx of None \<Rightarrow> 0 | Some v \<Rightarrow> v) \<noteq> otherWei \<longrightarrow>
      EthService_validateIncomingTransfer ethis e net chain hash otherWei who =
        Inr \<lparr>ok = False, reason = Some ''Amount mismatch'', txHash = Some hash,
             confirmations = None, sender = None, to = None, amountWei = None\<rparr>)"
proof (intro conjI impI)
  assume res: "UsdcService_validateIncomingTransfer this net iface chain hash expected who = Inr r"
    and ok: "ok r"
  from res ok obtain receipt m where
    cfg: "tokenAddress (UsdcService_getChainConfig this chain) \<noteq> []"
    and rc: "waitForTransaction (UsdcService_getProvider net this chain) hash = Some receipt"
    and st: "status receipt = Some 1"
    and mt: "matchTransfer (UsdcService_getChainConfig this chain) iface
               (UsdcService_getProvider net this chain) hash who receipt = Inr (Some m)"
    and v: "m_value m = expected"
    using usdc_last_stage [of this net iface chain hash expected who r] by blast
  from res ok v show "amount6 r = Some expected"
    unfolding usdc_matched [OF cfg rc st mt] by (auto split: if_splits)
  from res ok v show "\<exists>c. confirmations r = Some c \<and> 0 < c"
    unfolding usdc_matched [OF cfg rc st mt] by (auto split: if_splits)
  from rc mt v show "\<exists>receipt m.
      waitForTransaction (UsdcService_getProvider net this chain) hash = Some receipt
    \<and> matchTransfer (UsdcService_getChainConfig this chain) iface
         (UsdcService_getProvider net this chain) hash who receipt = Inr (Some m)
    \<and> m_value m = expected" by blast
next
  assume "waitForTransaction (UsdcService_getProvider net this chain) hash = Some rc"
    and "status rc = Some 1"
    and mt: "matchTransfer (UsdcService_getChainConfig this chain) iface
           (UsdcService_getProvider net this chain) hash who rc = Inr (Some m)"
    and "m_value m \<noteq> other"
  moreover from mt have "tokenAddress (UsdcService_getChainConfig this chain) \<noteq> []"
    by (rule matchTransfer_configured)
  ultimately show "UsdcService_validateIncomingTransfer this net iface chain hash other who =
        Inr \<lparr>ok = False, reason = Some ''Amount mismatch'', txHash = Some hash,
             confirmations = None, sender = None, to = None, amount6 = None\<rparr>"
    by (simp add: usdc_matched)
next
  assume res: "EthService_validateIncomingTransfer ethis e net chain hash expectedWei who = Inr er"
    and ok: "ok er"
  from res ok obtain receipt tx' where
    rc: "waitForTransaction (EthService_getProvider net ethis chain) hash = Some receipt"
    and st: "status receipt = Some 1"
    and tx: "getTransaction (EthService_getProvider net ethis chain) hash = Some tx'"
    and nb: "\<not> EthService_isBlockedAddress e (toLowerCase (or_else (tx_to tx') []))"
    and dw: "toLowerCase (or_else (tx_to tx') []) = depositWallet (EthService_getChainConfig ethis chain)"
    and fr: "toLowerCase (tx_from tx') = toLowerCase who"
    and v: "(case tx_value tx' of None \<Rightarrow> 0 | Some v \<Rightarrow> v) = expectedWei"
    using eth_last_stage [of ethis e net chain hash expectedWei who er] by blast
  from res ok v show "amountWei er = Some expectedWei"
    unfolding eth_matched [OF rc st tx nb dw fr] by (auto split: if_splits)
  from res ok v show "\<exists>c. confirmations er = Some c \<and> 0 < c"
    unfolding eth_matched [OF rc st tx nb dw fr] by (auto split: if_splits)
  from tx v show "\<exists>tx. getTransaction (EthService_getProvider net ethis chain) hash = Some tx
      \<and> (case tx_value tx of None \<Rightarrow> 0 | Some v \<Rightarrow> v) = expectedWei" by blast
next
  assume "waitForTransaction (EthService_getProvider net ethis chain) hash = Some erc"
    and "status erc = Some 1"
    and "getTransaction (EthService_getProvider net ethis chain) hash = Some tx"
    and "\<not> EthService_isBlockedAddress e (toLowerCase (or_else (tx_to tx) []))"
    and "toLowerCase (or_else (tx_to tx) []) = depositWallet (EthService_getChainConfig ethis chain)"
    and "toLowerCase (tx_from tx) = toLowerCase who"
    and "(case tx_value tx of None \<Rightarrow> 0 | Some v \<Rightarrow> v) \<noteq> otherWei"
  then show "EthService_validateIncomingTransfer ethis e net chain hash otherWei who =
        Inr \<lparr>ok = False, reason = Some ''Amount mismatch'', txHash = Some hash,
             confirmations = None, sender = None, to = None, amountWei = None\<rparr>"
    by (simp add: eth_matched)
qed

theorem validated_amount_exact_witness:
  "UsdcService_validateIncomingTransfer (UsdcService_constructor ex_env) ex_net ex_iface
     op_sepolia ''0xh'' 1000000 ex_sender =
     Inr \<lparr>ok = True, reason = None, txHash = Some ''0xh'', confirmations = Some 3,
          sender = Some (toLowerCase ex_sender), to = Some (toLowerCase ex_deposit),
          amount6 = Some 1000000\<rparr>
   \<and> UsdcService_validateIncomingTransfer (UsdcService_constructor ex_env) ex_net ex_iface
     op_sepolia ''0xh'' 1000001 ex_sender =
     Inr \<lparr>ok = False, reason = Some ''Amount mismatch'', txHash = Some ''0xh'',
          confirmations = None, sender = None, to = None, amount6 = None\<rparr>
   \<and> EthService_validateIncomingTransfer (EthService_constructor ex_env) ex_env ex_net
     op_sepolia ''0xh'' 5000000000000000 ex_sender =
     Inr \<lparr>ok = True, reason = None, txHash = Some ''0xh'', confirmations = Some 3,
          sender = Some (toLowerCase ex_sender), to = Some (toLowerCase ex_deposit),
          amountWei = Some 5000000000000000\<rparr>
   \<and> EthService_validateIncomingTransfer (EthService_constructor ex_env) ex_env ex_net
     op_sepolia ''0xh'' 5000000000000001 ex_sender =
     Inr \<lparr>ok = False, reason = Some ''Amount mismatch'', txHash = Some ''0xh'',
          confirmations = None, sender = None, to = None, amountWei = None\<rparr>"
proof -
  let ?U = "UsdcService_constructor ex_env" and ?E = "EthService_constructor ex_env"
  let ?m = "\<lparr>m_from = toLowerCase ex_sender, m_to = toLowerCase ex_deposit, m_value = 1000000\<rparr>"
  have u_ok: "UsdcService_validateIncomingTransfer ?U ex_net ex_iface op_sepolia ''0xh'' 1000000
      ex_sender =
     Inr \<lparr>ok = True, reason = None, txHash = Some ''0xh'', confirmations = Some 3,
          sender = Some (toLowerCase ex_sender), to = Some (toLowerCase ex_deposit),
          amount6 = Some 1000000\<rparr>"
    by code_simp
  have e_ok: "EthService_validateIncomingTransfer ?E ex_env ex_net op_sepolia ''0xh''
      5000000000000000 ex_sender =
     Inr \<lparr>ok = True, reason = None, txHash = Some ''0xh'', confirmations = Some 3,
          sender = Some (toLowerCase ex_sender), to = Some (toLowerCase ex_deposit),
          amountWei = Some 5000000000000000\<rparr>"
    by code_simp
  have h2: "waitForTransaction (UsdcService_getProvider ex_net ?U op_sepolia) ''0xh''
            = Some ex_receipt" by code_simp
  have h3: "status ex_receipt = Some 1" by code_simp
  have h4: "matchTransfer (UsdcService_getChainConfig ?U op_sepolia) ex_iface
              (UsdcService_getProvider ex_net ?U op_sepolia) ''0xh'' ex_sender ex_receipt
            = Inr (Some ?m)" by code_simp
  have h5: "m_value ?m \<noteq> 1000001" by simp
  have g1: "waitForTransaction (EthService_getProvider ex_net ?E op_sepolia) ''0xh''
            = Some ex_receipt" by code_simp
  have g2: "getTransaction (EthService_getProvider ex_net ?E op_sepolia) ''0xh''
            = Some ex_tx_native" by code_simp
  have g3: "\<not> EthService_isBlockedAddress ex_env (toLowerCase (or_else (tx_to ex_tx_native) []))"
    by code_simp
  have g4: "toLowerCase (or_else (tx_to ex_tx_native) [])
            = depositWallet (EthService_getChainConfig ?E op_sepolia)" by code_simp
  have g5: "toLowerCase (tx_from ex_tx_native) = toLowerCase ex_sender" by code_simp
  have g6: "(case tx_value ex_tx_native of None \<Rightarrow> 0 | Some v \<Rightarrow> v) \<noteq> 5000000000000001"
    by code_simp
  from validated_amount_exact [where this = ?U and net = ex_net and iface = ex_iface
      and chain = op_sepolia and hash = "''0xh''" and who = ex_sender and rc = ex_receipt
      and m = ?m and other = 1000001 and ethis = ?E and e = ex_env and erc = ex_receipt
      and tx = ex_tx_native and otherWei = 5000000000000001]
    u_ok e_ok h2 h3 h4 h5 g1 g2 g3 g4 g5 g6
  show ?thesis by blast
qed

text \<open>
  C2, as the specification states it, fails for the token service: without a configured
  token address the configuration check comes first, and a reverted transaction is
  answered with \<^verbatim>\<open>Token address not configured\<close>.
\<close>

theorem reverted_not_configured:
  "waitForTransaction
     (UsdcService_getProvider ex_net_reverted (UsdcService_constructor ex_env_bare) op_sepolia)
     ''0xh'' = Some ex_receipt_reverted
   \<and> status ex_receipt_reverted = Some 0
   \<and> UsdcService_validateIncomingTransfer (UsdcService_constructor ex_env_bare) ex_net_reverted
        ex_iface op_sepolia ''0xh'' 1000000 ex_sender =
      Inr \<lparr>ok = False, reason = Some ''Token address not configured'', txHash = None,
           confirmations = None, sender = None, to = None, amount6 = None\<rparr>"
  by code_simp

text \<open>
  C2, amended. When the receipt of the transaction is found and its status is not 1, the
  native validator returns the failure \<^verbatim>\<open>Transaction reverted\<close>, and so does the token
  validator whenever the token address of the chain is configured; the logs, the
  transaction, the head block and the expected sender and amount play no part.
\<close>

theorem reverted_before_matching:
  "(tokenAddress (UsdcService_getChainConfig this chain) \<noteq> [] \<longrightarrow>
      waitForTransaction (UsdcService_getProvider net this chain) hash = Some rc \<longrightarrow>
      status rc \<noteq> Some 1 \<longrightarrow>
      UsdcService_validateIncomingTransfer this net iface chain hash expected who =
        Inr \<lparr>ok = False, reason = Some ''Transaction reverted'', txHash = Some hash,
             confirmations = None, sender = None, to = None, amount6 = None\<rparr>)
   \<and> (waitForTransaction (EthService_getProvider enet ethis chain) hash = Some erc \<longrightarrow>
      status erc \<noteq> Some 1 \<longrightarrow>
      EthService_validateIncomingTransfer ethis e enet chain hash expectedWei who =
        Inr \<lparr>ok = False, reason = Some ''Transaction reverted'', txHash = Some hash,
             confirmations = None, sender = None, to = None, amountWei = None\<rparr>)"
  by (simp add: usdc_reverted eth_reverted)

theorem reverted_before_matching_witness:
  "tokenAddress (UsdcService_getChainConfig (UsdcService_constructor ex_env) op_sepolia) \<noteq> []
   \<and> status ex_receipt_reverted \<noteq> Some 1
   \<and> matchTransferLog (UsdcService_getChainConfig (UsdcService_constructor ex_env) op_sepolia)
        ex_iface ex_sender (logs ex_receipt_reverted) \<noteq> None
   \<and> UsdcService_validateIncomingTransfer (UsdcService_constructor ex_env) ex_net_reverted
        ex_iface op_sepolia ''0xh'' 1000000 ex_sender =
      Inr \<lparr>ok = False, reason = Some ''Transaction reverted'', txHash = Some ''0xh'',
           confirmations = None, sender = None, to = None, amount6 = None\<rparr>
   \<and> EthService_validateIncomingTransfer (EthService_constructor ex_env) ex_env
        ex_net_reverted op_sepolia ''0xh'' 5000000000000000 ex_sender =
      Inr \<lparr>ok = False, reason = Some ''Transaction reverted'', txHash = Some ''0xh'',
           confirmations = None, sender = None, to = None, amountWei = None\<rparr>"
proof -
  let ?U = "UsdcService_constructor ex_env" and ?E = "EthService_constructor ex_env"
  have h1: "tokenAddress (UsdcService_getChainConfig ?U op_sepolia) \<noteq> []" by code_simp
  have h2: "waitForTransaction (UsdcService_getProvider ex_net_reverted ?U op_sepolia) ''0xh''
            = Some ex_receipt_reverted" by code_simp
  have h3: "status ex_receipt_reverted \<noteq> Some 1" by code_simp
  have h4: "waitForTransaction (EthService_getProvider ex_net_reverted ?E op_sepolia) ''0xh''
            = Some ex_receipt_reverted" by code_simp
  have h5: "matchTransferLog (UsdcService_getChainConfig ?U op_sepolia) ex_iface ex_sender
              (logs ex_receipt_reverted) \<noteq> None" by code_simp
  from reverted_before_matching [where this = ?U and net = ex_net_reverted
      and chain = op_sepolia and hash = "''0xh''" and rc = ex_receipt_reverted
      and iface = ex_iface and expected = 1000000 and who = ex_sender
      and enet = ex_net_reverted and ethis = ?E and erc = ex_receipt_reverted
      and e = ex_env and expectedWei = 5000000000000000]
    h1 h2 h3 h4 h5
  show ?thesis by blast
qed

text \<open>
  C5, as the specification states it, fails: a transaction to a blocked address that
  reverted is answered with \<^verbatim>\<open>Transaction reverted\<close>, not with the blocked-recipient
  reason; the receipt checks come before the recipient checks.
\<close>

theorem blocked_but_reverted:
  "getTransaction
     (EthService_getProvider ex_net_reverted (EthService_constructor ex_env_blocked) op_sepolia)
     ''0xh'' = Some ex_tx_native
   \<and> EthService_isBlockedAddress ex_env_blocked (toLowerCase (or_else (tx_to ex_tx_native) []))
   \<and> EthService_validateIncomingTransfer (EthService_constructor ex_env_blocked) ex_env_blocked
        ex_net_reverted op_sepolia ''0xh'' 5000000000000000 ex_sender =
      Inr \<lparr>ok = False, reason = Some ''Transaction reverted'', txHash = Some ''0xh'',
           confirmations = None, sender = None, to = None, amountWei = None\<rparr>"
  by code_simp

text \<open>
  C5, amended. For every native-asset transaction whose destination is on the blocked
  list, validation fails, whatever the expected sender and amount; when the receipt is
  found with status 1, the failure is \<^verbatim>\<open>Blocked recipient\<close>, also when the destination is
  the deposit wallet and the sender and the amount are the expected ones.
\<close>

theorem blocked_recipient_rejected:
  "getTransaction (EthService_getProvider net this chain) hash = Some tx \<Longrightarrow>
   EthService_isBlockedAddress e (toLowerCase (or_else (tx_to tx) [])) \<Longrightarrow>
     (\<exists>r. EthService_validateIncomingTransfer this e net chain hash expected who = Inr r
          \<and> \<not> ok r)
   \<and> (waitForTransaction (EthService_getProvider net this chain) hash = Some rc \<longrightarrow>
        status rc = Some 1 \<longrightarrow>
        EthService_validateIncomingTransfer this e net chain hash expected who =
          Inr \<lparr>ok = False, reason = Some ''Blocked recipient'', txHash = Some hash,
               confirmations = None, sender = None, to = None, amountWei = None\<rparr>)"
proof (intro conjI impI)
  assume tx: "getTransaction (EthService_getProvider net this chain) hash = Some tx"
    and bl: "EthService_isBlockedAddress e (toLowerCase (or_else (tx_to tx) []))"
  show "\<exists>r. EthService_validateIncomingTransfer this e net chain hash expected who = Inr r
            \<and> \<not> ok r"
  proof (cases "waitForTransaction (EthService_getProvider net this chain) hash")
    case None
    then show ?thesis by (simp add: EthService_validateIncomingTransfer_def)
  next
    case (Some receipt)
    show ?thesis
    proof (cases "status receipt = Some 1")
      case True
      with Some tx bl show ?thesis by (simp add: eth_blocked)
    next
      case False
      with Some show ?thesis by (simp add: eth_reverted)
    qed
  qed
  assume "waitForTransaction (EthService_getProvider net this chain) hash = Some rc"
    and "status rc = Some 1"
  with tx bl show "EthService_validateIncomingTransfer this e net chain hash expected who =
      Inr \<lparr>ok = False, reason = Some ''Blocked recipient'', txHash = Some hash,
           confirmations = None, sender = None, to = None, amountWei = None\<rparr>"
    by (simp add: eth_blocked)
qed

theorem blocked_recipient_rejected_witness:
  "EthService_isBlockedAddress ex_env_blocked (toLowerCase (or_else (tx_to ex_tx_native) []))
   \<and> toLowerCase (or_else (tx_to ex_tx_native) [])
       = depositWallet (EthService_getChainConfig (EthService_constructor ex_env_blocked) op_sepolia)
   \<and> toLowerCase (tx_from ex_tx_native) = toLowerCase ex_sender
   \<and> tx_value ex_tx_native = Some 5000000000000000
   \<and> EthService_validateIncomingTransfer (EthService_constructor ex_env_blocked) ex_env_blocked
        ex_net op_sepolia ''0xh'' 5000000000000000 ex_sender =
      Inr \<lparr>ok = False, reason = Some ''Blocked recipient'', txHash = Some ''0xh'',
           confirmations = None, sender = None, to = None, amountWei = None\<rparr>"
proof -
  let ?E = "EthService_constructor ex_env_blocked"
  have h1: "getTransaction (EthService_getProvider ex_net ?E op_sepolia) ''0xh''
            = Some ex_tx_native" by code_simp
  have h2: "EthService_isBlockedAddress ex_env_blocked
              (toLowerCase (or_else (tx_to ex_tx_native) []))" by code_simp
  have h3: "waitForTransaction (EthService_getProvider ex_net ?E op_sepolia) ''0xh''
            = Some ex_receipt" by code_simp
  have h4: "status ex_receipt = Some 1" by code_simp
  have h5: "toLowerCase (or_else (tx_to ex_tx_native) [])
            = depositWallet (EthService_getChainConfig ?E op_sepolia)" by code_simp
  have h6: "toLowerCase (tx_from ex_tx_native) = toLowerCase ex_sender" by code_simp
  have h7: "tx_value ex_tx_native = Some 5000000000000000" by code_simp
  from blocked_recipient_rejected [OF h1 h2, where rc = ex_receipt
      and expected = 5000000000000000 and who = ex_sender] h2 h3 h4 h5 h6 h7
  show ?thesis by blast
qed

text \<open>Every result of the last stage carries the count computed there.\<close>

lemma confirmation_stage_results:
  "(waitForTransaction (UsdcService_getProvider net this chain) hash = Some rc \<longrightarrow>
    UsdcService_validateIncomingTransfer this net iface chain hash expected who = Inr r \<longrightarrow>
    (ok r \<or> reason r = Some ''Not enough confirmations'') \<longrightarrow>
      confirmations r =
        Some (getBlockNumber (UsdcService_getProvider net this chain)
              - (case blockNumber rc of
                   None \<Rightarrow> getBlockNumber (UsdcService_getProvider net this chain)
                 | Some b \<Rightarrow> b) + 1)
      \<and> (ok r \<longleftrightarrow> (\<exists>c. confirmations r = Some c \<and> 1 \<le> c))
      \<and> (blockNumber rc = None \<longrightarrow> confirmations r = Some 1 \<and> ok r)
      \<and> (reason r = Some ''Not enough confirmations'' \<longrightarrow>
           (\<exists>b. blockNumber rc = Some b
                \<and> getBlockNumber (UsdcService_getProvider net this chain) < b)))
   \<and> (waitForTransaction (EthService_getProvider enet ethis chain) hash = Some erc \<longrightarrow>
    EthService_validateIncomingTransfer ethis e enet chain hash expectedWei who = Inr er \<longrightarrow>
    (ok er \<or> reason er = Some ''Not enough confirmations'') \<longrightarrow>
      confirmations er =
        Some (getBlockNumber (EthService_getProvider enet ethis chain)
              - (case blockNumber erc of
                   None \<Rightarrow> getBlockNumber (EthService_getProvider enet ethis chain)
                 | Some b \<Rightarrow> b) + 1)
      \<and> (ok er \<longleftrightarrow> (\<exists>c. confirmations er = Some c \<and> 1 \<le> c))
      \<and> (blockNumber erc = None \<longrightarrow> confirmations er = Some 1 \<and> ok er)
      \<and> (reason er = Some ''Not enough confirmations'' \<longrightarrow>
           (\<exists>b. blockNumber erc = Some b
                \<and> getBlockNumber (EthService_getProvider enet ethis chain) < b)))"
proof (rule conjI; intro impI)
  assume rc: "waitForTransaction (UsdcService_getProvider net this chain) hash = Some rc"
    and res: "UsdcService_validateIncomingTransfer this net iface chain hash expected who = Inr r"
    and last: "ok r \<or> reason r = Some ''Not enough confirmations''"
  from res last rc obtain m where
    cfg: "tokenAddress (UsdcService_getChainConfig this chain) \<noteq> []"
    and st: "status rc = Some 1"
    and mt: "matchTransfer (UsdcService_getChainConfig this chain) iface
               (UsdcService_getProvider net this chain) hash who rc = Inr (Some m)"
    and v: "m_value m = expected"
    using usdc_last_stage [of this net iface chain hash expected who r] by auto
  from res v show "confirmations r =
        Some (getBlockNumber (UsdcService_getProvider net this chain)
              - (case blockNumber rc of
                   None \<Rightarrow> getBlockNumber (UsdcService_getProvider net this chain)
                 | Some b \<Rightarrow> b) + 1)
      \<and> (ok r \<longleftrightarrow> (\<exists>c. confirmations r = Some c \<and> 1 \<le> c))
      \<and> (blockNumber rc = None \<longrightarrow> confirmations r = Some 1 \<and> ok r)
      \<and> (reason r = Some ''Not enough confirmations'' \<longrightarrow>
           (\<exists>b. blockNumber rc = Some b
                \<and> getBlockNumber (UsdcService_getProvider net this chain) < b))"
    unfolding usdc_matched [OF cfg rc st mt]
    by (cases "blockNumber rc") (auto split: if_splits)
next
  assume rc: "waitForTransaction (EthService_getProvider enet ethis chain) hash = Some erc"
    and res: "EthService_validateIncomingTransfer ethis e enet chain hash expectedWei who = Inr er"
    and last: "ok er \<or> reason er = Some ''Not enough confirmations''"
  from res last rc obtain tx where
    st: "status erc = Some 1"
    and tx: "getTransaction (EthService_getProvider enet ethis chain) hash = Some tx"
    and nb: "\<not> EthService_isBlockedAddress e (toLowerCase (or_else (tx_to tx) []))"
    and dw: "toLowerCase (or_else (tx_to tx) []) = depositWallet (EthService_getChainConfig ethis chain)"
    and fr: "toLowerCase (tx_from tx) = toLowerCase who"
    and v: "(case tx_value tx of None \<Rightarrow> 0 | Some v \<Rightarrow> v) = expectedWei"
    using eth_last_stage [of ethis e enet chain hash expectedWei who er] by auto
  from res v show "confirmations er =
        Some (getBlockNumber (EthService_getProvider enet ethis chain)
              - (case blockNumber erc of
                   None \<Rightarrow> getBlockNumber (EthService_getProvider enet ethis chain)
                 | Some b \<Rightarrow> b) + 1)
      \<and> (ok er \<longleftrightarrow> (\<exists>c. confirmations er = Some c \<and> 1 \<le> c))
      \<and> (blockNumber erc = None \<longrightarrow> confirmations er = Some 1 \<and> ok er)
      \<and> (reason er = Some ''Not enough confirmations'' \<longrightarrow>
           (\<exists>b. blockNumber erc = Some b
                \<and> getBlockNumber (EthService_getProvider enet ethis chain) < b))"
    unfolding eth_matched [OF rc st tx nb dw fr]
    by (cases "blockNumber erc") (auto split: if_splits)
qed

text \<open>
  C10. In both validators a validation that reaches the confirmation stage (token: a
  transfer with the expected amount was matched on a successful receipt; native: the
  receipt is successful and the transaction passed the blocked-address, recipient, sender
  and amount checks) returns a result that carries the confirmation count
  \<open>head - block + 1\<close>, where \<open>block\<close> is the block number of the receipt. When the
  receipt has no block number the count is exactly 1 and the result is a success; with a
  block number the result is the failure \<^verbatim>\<open>Not enough confirmations\<close> when the head is
  strictly below the receipt's block, and a success otherwise. Conversely, every success
  and every \<^verbatim>\<open>Not enough confirmations\<close> failure carries that count, is a success exactly
  when the count is at least 1, and the failure needs a receipt block number strictly
  above the head.
\<close>

theorem confirmation_count:
  "(waitForTransaction (UsdcService_getProvider net this chain) hash = Some rc \<longrightarrow>
    status rc = Some 1 \<longrightarrow>
    matchTransfer (UsdcService_getChainConfig this chain) iface
      (UsdcService_getProvider net this chain) hash who rc = Inr (Some m) \<longrightarrow>
UsdcService_validateIncomingTransfer this net iface chain hash (m_value m) who =
      (case blockNumber rc of
         None \<Rightarrow>
           Inr \<lparr>ok = True, reason = None, txHash = Some hash, confirmations = Some 1,
                sender = Some (m_from m), to = Some (m_to m), amount6 = Some (m_value m)\<rparr>
       | Some b \<Rightarrow>
           if getBlockNumber (UsdcService_getProvider net this chain) < b
           then Inr \<lparr>ok = False, reason = Some ''Not enough confirmations'',
                     txHash = Some hash,
                     confirmations =
                       Some (getBlockNumber (UsdcService_getProvider net this chain) - b + 1),
                     sender = None, to = None, amount6 = None\<rparr>
           else Inr \<lparr>ok = True, reason = None, txHash = Some hash,
                     confirmations =
                       Some (getBlockNumber (UsdcService_getProvider net this chain) - b + 1),
                     sender = Some (m_from m), to = Some (m_to m),
                     amount6 = Some (m_value m)\<rparr>))
   \<and> (waitForTransaction (EthService_getProvider enet ethis chain) hash = Some erc \<longrightarrow>
    status erc = Some 1 \<longrightarrow>
    getTransaction (EthService_getProvider enet ethis chain) hash = Some tx \<longrightarrow>
    \<not> EthService_isBlockedAddress e (toLowerCase (or_else (tx_to tx) [])) \<longrightarrow>
    toLowerCase (or_else (tx_to tx) [])
      = depositWallet (EthService_getChainConfig ethis chain) \<longrightarrow>
    toLowerCase (tx_from tx) = toLowerCase who \<longrightarrow>
EthService_validateIncomingTransfer ethis e enet chain hash
        (case tx_value tx of None \<Rightarrow> 0 | Some v \<Rightarrow> v) who =
      (case blockNumber erc of
         None \<Rightarrow>
           Inr \<lparr>ok = True, reason = None, txHash = Some hash, confirmations = Some 1,
                sender = Some (toLowerCase (tx_from tx)),
                to = Some (toLowerCase (or_else (tx_to tx) [])),
                amountWei = Some (case tx_value tx of None \<Rightarrow> 0 | Some v \<Rightarrow> v)\<rparr>
       | Some b \<Rightarrow>
           if getBlockNumber (EthService_getProvider enet ethis chain) < b
           then Inr \<lparr>ok = False, reason = Some ''Not enough confirmations'',
                     txHash = Some hash,
                     confirmations =
                       Some (getBlockNumber (EthService_getProvider enet ethis chain) - b + 1),
                     sender = None, to = None, amountWei = None\<rparr>
           else Inr \<lparr>ok = True, reason = None, txHash = Some hash,
                     confirmations =
                       Some (getBlockNumber (EthService_getProvider enet ethis chain) - b + 1),
                     sender = Some (toLowerCase (tx_from tx)),
                     to = Some (toLowerCase (or_else (tx_to tx) [])),
                     amountWei = Some (case tx_value tx of None \<Rightarrow> 0 | Some v \<Rightarrow> v)\<rparr>))
   \<and> (waitForTransaction (UsdcService_getProvider net this chain) hash = Some rc \<longrightarrow>
    UsdcService_validateIncomingTransfer this net iface chain hash expected who = Inr r \<longrightarrow>
    (ok r \<or> reason r = Some ''Not enough confirmations'') \<longrightarrow>
      confirmations r =
        Some (getBlockNumber (UsdcService_getProvider net this chain)
              - (case blockNumber rc of
                   None \<Rightarrow> getBlockNumber (UsdcService_getProvider net this chain)
                 | Some b \<Rightarrow> b) + 1)
      \<and> (ok r \<longleftrightarrow> (\<exists>c. confirmations r = Some c \<and> 1 \<le> c))
      \<and> (blockNumber rc = None \<longrightarrow> confirmations r = Some 1 \<and> ok r)
      \<and> (reason r = Some ''Not enough confirmations'' \<longrightarrow>
           (\<exists>b. blockNumber rc = Some b
                \<and> getBlockNumber (UsdcService_getProvider net this chain) < b)))
   \<and> (waitForTransaction (EthService_getProvider enet ethis chain) hash = Some erc \<longrightarrow>
    EthService_validateIncomingTransfer ethis e enet chain hash expectedWei who = Inr er \<longrightarrow>
    (ok er \<or> reason er = Some ''Not enough confirmations'') \<longrightarrow>
      confirmations er =
        Some (getBlockNumber (EthService_getProvider enet ethis chain)
              - (case blockNumber erc of
                   None \<Rightarrow> getBlockNumber (EthService_getProvider enet ethis chain)
                 | Some b \<Rightarrow> b) + 1)
      \<and> (ok er \<longleftrightarrow> (\<exists>c. confirmations er = Some c \<and> 1 \<le> c))
      \<and> (blockNumber erc = None \<longrightarrow> confirmations er = Some 1 \<and> ok er)
      \<and> (reason er = Some ''Not enough confirmations'' \<longrightarrow>
           (\<exists>b. blockNumber erc = Some b
                \<and> getBlockNumber (EthService_getProvider enet ethis chain) < b)))"
proof -
  have token: "(waitForTransaction (UsdcService_getProvider net this chain) hash = Some rc \<longrightarrow>
    status rc = Some 1 \<longrightarrow>
    matchTransfer (UsdcService_getChainConfig this chain) iface
      (UsdcService_getProvider net this chain) hash who rc = Inr (Some m) \<longrightarrow>
UsdcService_validateIncomingTransfer this net iface chain hash (m_value m) who =
      (case blockNumber rc of
         None \<Rightarrow>
           Inr \<lparr>ok = True, reason = None, txHash = Some hash, confirmations = Some 1,
                sender = Some (m_from m), to = Some (m_to m), amount6 = Some (m_value m)\<rparr>
       | Some b \<Rightarrow>
           if getBlockNumber (UsdcService_getProvider net this chain) < b
           then Inr \<lparr>ok = False, reason = Some ''Not enough confirmations'',
                     txHash = Some hash,
                     confirmations =
                       Some (getBlockNumber (UsdcService_getProvider net this chain) - b + 1),
                     sender = None, to = None, amount6 = None\<rparr>
           else Inr \<lparr>ok = True, reason = None, txHash = Some hash,
                     confirmations =
                       Some (getBlockNumber (UsdcService_getProvider net this chain) - b + 1),
                     sender = Some (m_from m), to = Some (m_to m),
                     amount6 = Some (m_value m)\<rparr>))"
  proof (intro impI)
    assume rc: "waitForTransaction (UsdcService_getProvider net this chain) hash = Some rc"
      and st: "status rc = Some 1"
      and mt: "matchTransfer (UsdcService_getChainConfig this chain) iface
                 (UsdcService_getProvider net this chain) hash who rc = Inr (Some m)"
    from mt have cfg: "tokenAddress (UsdcService_getChainConfig this chain) \<noteq> []"
      by (rule matchTransfer_configured)
    show "UsdcService_validateIncomingTransfer this net iface chain hash (m_value m) who =
      (case blockNumber rc of
         None \<Rightarrow>
           Inr \<lparr>ok = True, reason = None, txHash = Some hash, confirmations = Some 1,
                sender = Some (m_from m), to = Some (m_to m), amount6 = Some (m_value m)\<rparr>
       | Some b \<Rightarrow>
           if getBlockNumber (UsdcService_getProvider net this chain) < b
           then Inr \<lparr>ok = False, reason = Some ''Not enough confirmations'',
                     txHash = Some hash,
                     confirmations =
                       Some (getBlockNumber (UsdcService_getProvider net this chain) - b + 1),
                     sender = None, to = None, amount6 = None\<rparr>
           else Inr \<lparr>ok = True, reason = None, txHash = Some hash,
                     confirmations =
                       Some (getBlockNumber (UsdcService_getProvider net this chain) - b + 1),
                     sender = Some (m_from m), to = Some (m_to m),
                     amount6 = Some (m_value m)\<rparr>)"
      unfolding usdc_matched [OF cfg rc st mt]
      by (cases "blockNumber rc") simp_all
  qed
  have native: "(waitForTransaction (EthService_getProvider enet ethis chain) hash = Some erc \<longrightarrow>
    status erc = Some 1 \<longrightarrow>
    getTransaction (EthService_getProvider enet ethis chain) hash = Some tx \<longrightarrow>
    \<not> EthService_isBlockedAddress e (toLowerCase (or_else (tx_to tx) [])) \<longrightarrow>
    toLowerCase (or_else (tx_to tx) [])
      = depositWallet (EthService_getChainConfig ethis chain) \<longrightarrow>
    toLowerCase (tx_from tx) = toLowerCase who \<longrightarrow>
EthService_validateIncomingTransfer ethis e enet chain hash
        (case tx_value tx of None \<Rightarrow> 0 | Some v \<Rightarrow> v) who =
      (case blockNumber erc of
         None \<Rightarrow>
           Inr \<lparr>ok = True, reason = None, txHash = Some hash, confirmations = Some 1,
                sender = Some (toLowerCase (tx_from tx)),
                to = Some (toLowerCase (or_else (tx_to tx) [])),
                amountWei = Some (case tx_value tx of None \<Rightarrow> 0 | Some v \<Rightarrow> v)\<rparr>
       | Some b \<Rightarrow>
           if getBlockNumber (EthService_getProvider enet ethis chain) < b
           then Inr \<lparr>ok = False, reason = Some ''Not enough confirmations'',
                     txHash = Some hash,
                     confirmations =
                       Some (getBlockNumber (EthService_getProvider enet ethis chain) - b + 1),
                     sender = None, to = None, amountWei = None\<rparr>
           else Inr \<lparr>ok = True, reason = None, txHash = Some hash,
                     confirmations =
                       Some (getBlockNumber (EthService_getProvider enet ethis chain) - b + 1),
                     sender = Some (toLowerCase (tx_from tx)),
                     to = Some (toLowerCase (or_else (tx_to tx) [])),
                     amountWei = Some (case tx_value tx of None \<Rightarrow> 0 | Some v \<Rightarrow> v)\<rparr>))"
  proof (intro impI)
    assume rc: "waitForTransaction (EthService_getProvider enet ethis chain) hash = Some erc"
      and st: "status erc = Some 1"
      and tx: "getTransaction (EthService_getProvider enet ethis chain) hash = Some tx"
      and nb: "\<not> EthService_isBlockedAddress e (toLowerCase (or_else (tx_to tx) []))"
      and dw: "toLowerCase (or_else (tx_to tx) [])
               = depositWallet (EthService_getChainConfig ethis chain)"
      and fr: "toLowerCase (tx_from tx) = toLowerCase who"
    show "EthService_validateIncomingTransfer ethis e enet chain hash
        (case tx_value tx of None \<Rightarrow> 0 | Some v \<Rightarrow> v) who =
      (case blockNumber erc of
         None \<Rightarrow>
           Inr \<lparr>ok = True, reason = None, txHash = Some hash, confirmations = Some 1,
                sender = Some (toLowerCase (tx_from tx)),
                to = Some (toLowerCase (or_else (tx_to tx) [])),
                amountWei = Some (case tx_value tx of None \<Rightarrow> 0 | Some v \<Rightarrow> v)\<rparr>
       | Some b \<Rightarrow>
           if getBlockNumber (EthService_getProvider enet ethis chain) < b
           then Inr \<lparr>ok = False, reason = Some ''Not enough confirmations'',
                     txHash = Some hash,
                     confirmations =
                       Some (getBlockNumber (EthService_getProvider enet ethis chain) - b + 1),
                     sender = None, to = None, amountWei = None\<rparr>
           else Inr \<lparr>ok = True, reason = None, txHash = Some hash,
                     confirmations =
                       Some (getBlockNumber (EthService_getProvider enet ethis chain) - b + 1),
                     sender = Some (toLowerCase (tx_from tx)),
                     to = Some (toLowerCase (or_else (tx_to tx) [])),
                     amountWei = Some (case tx_value tx of None \<Rightarrow> 0 | Some v \<Rightarrow> v)\<rparr>)"
      unfolding eth_matched [OF rc st tx nb dw fr]
      by (cases "blockNumber erc") simp_all
  qed
  have backward: "(waitForTransaction (UsdcService_getProvider net this chain) hash = Some rc \<longrightarrow>
    UsdcService_validateIncomingTransfer this net iface chain hash expected who = Inr r \<longrightarrow>
    (ok r \<or> reason r = Some ''Not enough confirmations'') \<longrightarrow>
      confirmations r =
        Some (getBlockNumber (UsdcService_getProvider net this chain)
              - (case blockNumber rc of
                   None \<Rightarrow> getBlockNumber (UsdcService_getProvider net this chain)
                 | Some b \<Rightarrow> b) + 1)
      \<and> (ok r \<longleftrightarrow> (\<exists>c. confirmations r = Some c \<and> 1 \<le> c))
      \<and> (blockNumber rc = None \<longrightarrow> confirmations r = Some 1 \<and> ok r)
      \<and> (reason r = Some ''Not enough confirmations'' \<longrightarrow>
           (\<exists>b. blockNumber rc = Some b
                \<and> getBlockNumber (UsdcService_getProvider net this chain) < b)))
   \<and> (waitForTransaction (EthService_getProvider enet ethis chain) hash = Some erc \<longrightarrow>
    EthService_validateIncomingTransfer ethis e enet chain hash expectedWei who = Inr er \<longrightarrow>
    (ok er \<or> reason er = Some ''Not enough confirmations'') \<longrightarrow>
      confirmations er =
        Some (getBlockNumber (EthService_getProvider enet ethis chain)
              - (case blockNumber erc of
                   None \<Rightarrow> getBlockNumber (EthService_getProvider enet ethis chain)
                 | Some b \<Rightarrow> b) + 1)
      \<and> (ok er \<longleftrightarrow> (\<exists>c. confirmations er = Some c \<and> 1 \<le> c))
      \<and> (blockNumber erc = None \<longrightarrow> confirmations er = Some 1 \<and> ok er)
      \<and> (reason er = Some ''Not enough confirmations'' \<longrightarrow>
           (\<exists>b. blockNumber erc = Some b
                \<and> getBlockNumber (EthService_getProvider enet ethis chain) < b)))"
    by (rule confirmation_stage_results)
  from conjI [OF token conjI [OF native backward]] show ?thesis .
qed

theorem confirmation_count_witness:
  "blockNumber ex_receipt = Some 100 \<and> blockNumber ex_receipt_unnumbered = None
   \<and> getBlockNumber (UsdcService_getProvider ex_net_behind (UsdcService_constructor ex_env)
        op_sepolia) = 99
   \<and> getBlockNumber (UsdcService_getProvider ex_net (UsdcService_constructor ex_env)
        op_sepolia) = 102
   \<and> UsdcService_validateIncomingTransfer (UsdcService_constructor ex_env) ex_net_behind
        ex_iface op_sepolia ''0xh'' 1000000 ex_sender =
      Inr \<lparr>ok = False, reason = Some ''Not enough confirmations'', txHash = Some ''0xh'',
           confirmations = Some 0, sender = None, to = None, amount6 = None\<rparr>
   \<and> UsdcService_validateIncomingTransfer (UsdcService_constructor ex_env) ex_net
        ex_iface op_sepolia ''0xh'' 1000000 ex_sender =
      Inr \<lparr>ok = True, reason = None, txHash = Some ''0xh'', confirmations = Some 3,
           sender = Some (toLowerCase ex_sender), to = Some (toLowerCase ex_deposit),
           amount6 = Some 1000000\<rparr>
   \<and> UsdcService_validateIncomingTransfer (UsdcService_constructor ex_env) ex_net_unnumbered
        ex_iface op_sepolia ''0xh'' 1000000 ex_sender =
      Inr \<lparr>ok = True, reason = None, txHash = Some ''0xh'', confirmations = Some 1,
           sender = Some (toLowerCase ex_sender), to = Some (toLowerCase ex_deposit),
           amount6 = Some 1000000\<rparr>
   \<and> EthService_validateIncomingTransfer (EthService_constructor ex_env) ex_env
        ex_net_behind op_sepolia ''0xh'' 5000000000000000 ex_sender =
      Inr \<lparr>ok = False, reason = Some ''Not enough confirmations'', txHash = Some ''0xh'',
           confirmations = Some 0, sender = None, to = None, amountWei = None\<rparr>
   \<and> EthService_validateIncomingTransfer (EthService_constructor ex_env) ex_env
        ex_net op_sepolia ''0xh'' 5000000000000000 ex_sender =
      Inr \<lparr>ok = True, reason = None, txHash = Some ''0xh'', confirmations = Some 3,
           sender = Some (toLowerCase ex_sender), to = Some (toLowerCase ex_deposit),
           amountWei = Some 5000000000000000\<rparr>
   \<and> EthService_validateIncomingTransfer (EthService_constructor ex_env) ex_env
        ex_net_unnumbered op_sepolia ''0xh'' 5000000000000000 ex_sender =
      Inr \<lparr>ok = True, reason = None, txHash = Some ''0xh'', confirmations = Some 1,
           sender = Some (toLowerCase ex_sender), to = Some (toLowerCase ex_deposit),
           amountWei = Some 5000000000000000\<rparr>"
proof -
  let ?U = "UsdcService_constructor ex_env" and ?E = "EthService_constructor ex_env"
  let ?cfg = "UsdcService_getChainConfig ?U op_sepolia"
  let ?m = "\<lparr>m_from = toLowerCase ex_sender, m_to = toLowerCase ex_deposit, m_value = 1000000\<rparr>"
  let ?r = "\<lparr>ok = False, reason = Some ''Not enough confirmations'', txHash = Some ''0xh'',
           confirmations = Some 0, sender = None, to = None, amount6 = None\<rparr>"
  let ?er = "\<lparr>ok = True, reason = None, txHash = Some ''0xh'', confirmations = Some 1,
           sender = Some (toLowerCase ex_sender), to = Some (toLowerCase ex_deposit),
           amountWei = Some 5000000000000000\<rparr>"
  have b1: "blockNumber ex_receipt = Some 100" by code_simp
  have b2: "blockNumber ex_receipt_unnumbered = None" by code_simp
  have s1: "status ex_receipt = Some 1" by code_simp
  have s2: "status ex_receipt_unnumbered = Some 1" by code_simp
  have head_behind: "getBlockNumber (UsdcService_getProvider ex_net_behind ?U op_sepolia) = 99"
    "getBlockNumber (EthService_getProvider ex_net_behind ?E op_sepolia) = 99"
    by code_simp+
  have head: "getBlockNumber (UsdcService_getProvider ex_net ?U op_sepolia) = 102"
    "getBlockNumber (EthService_getProvider ex_net ?E op_sepolia) = 102"
    by code_simp+
  have w_behind: "waitForTransaction (UsdcService_getProvider ex_net_behind ?U op_sepolia) ''0xh''
            = Some ex_receipt"
    "waitForTransaction (EthService_getProvider ex_net_behind ?E op_sepolia) ''0xh''
            = Some ex_receipt"
    by code_simp+
  have w_net: "waitForTransaction (UsdcService_getProvider ex_net ?U op_sepolia) ''0xh''
            = Some ex_receipt"
    "waitForTransaction (EthService_getProvider ex_net ?E op_sepolia) ''0xh''
            = Some ex_receipt"
    by code_simp+
  have w_un: "waitForTransaction (UsdcService_getProvider ex_net_unnumbered ?U op_sepolia) ''0xh''
            = Some ex_receipt_unnumbered"
    "waitForTransaction (EthService_getProvider ex_net_unnumbered ?E op_sepolia) ''0xh''
            = Some ex_receipt_unnumbered"
    by code_simp+
  have m_behind: "matchTransfer ?cfg ex_iface (UsdcService_getProvider ex_net_behind ?U op_sepolia)
              ''0xh'' ex_sender ex_receipt = Inr (Some ?m)" by code_simp
  have m_net: "matchTransfer ?cfg ex_iface (UsdcService_getProvider ex_net ?U op_sepolia)
              ''0xh'' ex_sender ex_receipt = Inr (Some ?m)" by code_simp
  have m_un: "matchTransfer ?cfg ex_iface (UsdcService_getProvider ex_net_unnumbered ?U op_sepolia)
              ''0xh'' ex_sender ex_receipt_unnumbered = Inr (Some ?m)" by code_simp
  have t_behind: "getTransaction (EthService_getProvider ex_net_behind ?E op_sepolia) ''0xh''
            = Some ex_tx_native" by code_simp
  have t_net: "getTransaction (EthService_getProvider ex_net ?E op_sepolia) ''0xh''
            = Some ex_tx_native" by code_simp
  have t_un: "getTransaction (EthService_getProvider ex_net_unnumbered ?E op_sepolia) ''0xh''
            = Some ex_tx_native" by code_simp
  have nb: "\<not> EthService_isBlockedAddress ex_env (toLowerCase (or_else (tx_to ex_tx_native) []))"
    by code_simp
  have dw: "toLowerCase (or_else (tx_to ex_tx_native) [])
            = depositWallet (EthService_getChainConfig ?E op_sepolia)" by code_simp
  have fr: "toLowerCase (tx_from ex_tx_native) = toLowerCase ex_sender" by code_simp
  have to_eq: "depositWallet (EthService_getChainConfig ?E op_sepolia) = toLowerCase ex_deposit"
    by code_simp
  have val: "(case tx_value ex_tx_native of None \<Rightarrow> 0 | Some v \<Rightarrow> v) = 5000000000000000"
    by code_simp
  note one = confirmation_count [where this = ?U and net = ex_net_behind and chain = op_sepolia
      and hash = "''0xh''" and rc = ex_receipt and iface = ex_iface and who = ex_sender
      and m = ?m and enet = ex_net_unnumbered and ethis = ?E and erc = ex_receipt_unnumbered
      and e = ex_env and tx = ex_tx_native]
  note two = confirmation_count [where this = ?U and net = ex_net and chain = op_sepolia
      and hash = "''0xh''" and rc = ex_receipt and iface = ex_iface and who = ex_sender
      and m = ?m and enet = ex_net and ethis = ?E and erc = ex_receipt
      and e = ex_env and tx = ex_tx_native]
  note three = confirmation_count [where this = ?U and net = ex_net_unnumbered
      and chain = op_sepolia and hash = "''0xh''" and rc = ex_receipt_unnumbered
      and iface = ex_iface and who = ex_sender and m = ?m and enet = ex_net_behind
      and ethis = ?E and erc = ex_receipt and e = ex_env and tx = ex_tx_native]
  from one w_behind(1) s1 m_behind
  have u1: "UsdcService_validateIncomingTransfer ?U ex_net_behind ex_iface op_sepolia ''0xh''
              1000000 ex_sender = Inr ?r"
    by (simp add: b1 head_behind)
  from one w_un(2) s2 t_un nb dw fr
  have e1: "EthService_validateIncomingTransfer ?E ex_env ex_net_unnumbered op_sepolia ''0xh''
              5000000000000000 ex_sender = Inr ?er"
    by (simp add: b2 val to_eq)
  from two w_net(1) s1 m_net
  have u2: "UsdcService_validateIncomingTransfer ?U ex_net ex_iface op_sepolia ''0xh''
              1000000 ex_sender =
      Inr \<lparr>ok = True, reason = None, txHash = Some ''0xh'', confirmations = Some 3,
           sender = Some (toLowerCase ex_sender), to = Some (toLowerCase ex_deposit),
           amount6 = Some 1000000\<rparr>"
    by (simp add: b1 head)
  from two w_net(2) s1 t_net nb dw fr
  have e2: "EthService_validateIncomingTransfer ?E ex_env ex_net op_sepolia ''0xh''
              5000000000000000 ex_sender =
      Inr \<lparr>ok = True, reason = None, txHash = Some ''0xh'', confirmations = Some 3,
           sender = Some (toLowerCase ex_sender), to = Some (toLowerCase ex_deposit),
           amountWei = Some 5000000000000000\<rparr>"
    by (simp add: b1 head val to_eq)
  from three w_un(1) s2 m_un
  have u3: "UsdcService_validateIncomingTransfer ?U ex_net_unnumbered ex_iface op_sepolia ''0xh''
              1000000 ex_sender =
      Inr \<lparr>ok = True, reason = None, txHash = Some ''0xh'', confirmations = Some 1,
           sender = Some (toLowerCase ex_sender), to = Some (toLowerCase ex_deposit),
           amount6 = Some 1000000\<rparr>"
    by (simp add: b2)
  from three w_behind(2) s1 t_behind nb dw fr
  have e3: "EthService_validateIncomingTransfer ?E ex_env ex_net_behind op_sepolia ''0xh''
              5000000000000000 ex_sender =
      Inr \<lparr>ok = False, reason = Some ''Not enough confirmations'', txHash = Some ''0xh'',
           confirmations = Some 0, sender = None, to = None, amountWei = None\<rparr>"
    by (simp add: b1 head_behind val to_eq)
  have r_last: "ok ?r \<or> reason ?r = Some ''Not enough confirmations''" by simp
  have er_last: "ok ?er \<or> reason ?er = Some ''Not enough confirmations''" by simp
  from one [where r = ?r and expected = 1000000 and er = ?er
      and expectedWei = 5000000000000000]
    w_behind(1) u1 r_last w_un(2) e1 er_last
  have "confirmations ?r = Some (99 - 100 + 1) \<and> confirmations ?er = Some 1"
    by (simp add: b1 b2 head_behind)
  with b1 b2 head_behind(1) head(1) u1 u2 u3 e1 e2 e3 show ?thesis by simp
qed

section \<open>The fallback on the call data\<close>

lemma slice_middle: "length a = n \<Longrightarrow> length b = m \<Longrightarrow> slice n (n + m) (a @ b @ c) = b"
  by (simp add: slice_def)

lemma radix_digit_not_space: "is_radix_digit b c \<Longrightarrow> \<not> is_space c"
  by (auto simp: is_radix_digit_def is_space_def Let_def)

text \<open>\<^verbatim>\<open>BigInt('0x' + ds)\<close> on hexadecimal digits.\<close>

lemma BigInt_hex:
  assumes ne: "ds \<noteq> []" and hex: "list_all (is_radix_digit 16) ds"
  shows "BigInt (''0x'' @ ds) = Inr (radix_value 16 ds)"
proof -
  from ne hex have "is_radix_digit 16 (last ds)" by (simp add: list_all_iff)
  then have "\<not> is_space (last (''0x'' @ ds))" using ne by (simp add: radix_digit_not_space)
  moreover have "\<not> is_space (hd (''0x'' @ ds))" by (simp add: is_space_def code_unit_def)
  ultimately have t: "trim (''0x'' @ ds) = ''0x'' @ ds" by (intro trim_id) simp_all
  from ne hex have n: "numeral_of 16 ds = Inr (radix_value 16 ds)"
    by (simp add: numeral_of_def)
  show ?thesis unfolding BigInt_def Let_def t by (simp add: n)
qed

text \<open>
  C4, as the specification states it, fails on call data that ends after the first
  argument: the destination is the token contract, the call data begins with the
  selector, no log matched, the sender is the expected one and the recipient decoded from
  the first slot is the deposit wallet, but reading the amount throws and the validation
  throws with it.
\<close>

theorem transfer_input_cut:
  "matchTransferLog (UsdcService_getChainConfig (UsdcService_constructor ex_env) op_sepolia)
     ex_iface ex_sender (logs ex_receipt_nologs) = None
   \<and> map_option toLowerCase (tx_to ex_tx_cut) = Some (toLowerCase ex_token)
   \<and> startsWith (tx_data ex_tx_cut) ''0xa9059cbb''
   \<and> toLowerCase (tx_from ex_tx_cut) = toLowerCase ex_sender
   \<and> toLowerCase (''0x'' @ slice_from 24 (slice 10 74 (tx_data ex_tx_cut)))
       = toLowerCase ex_deposit
   \<and> matchTransfer (UsdcService_getChainConfig (UsdcService_constructor ex_env) op_sepolia)
        ex_iface ex_provider_cut ''0xh'' ex_sender ex_receipt_nologs = Inl SyntaxError
   \<and> UsdcService_validateIncomingTransfer (UsdcService_constructor ex_env)
        (fixed_network ex_provider_cut) ex_iface op_sepolia ''0xh'' 1000000 ex_sender
       = Inl SyntaxError"
  by code_simp

text \<open>
  C4, amended. In the token validator, when no log matched, the destination of the
  transaction is the configured token contract (compared in lower case) and the call data
  is the selector \<^verbatim>\<open>0xa9059cbb\<close> followed by two argument slots of 64 hexadecimal digits
  each (and anything after them), the recipient is \<^verbatim>\<open>0x\<close> with the last 40 digits of the
  first slot, the amount is the number written in the second slot, and this transfer is
  the match exactly when the sender is the expected sender and the recipient is the
  deposit wallet, both compared in lower case; otherwise there is no match.
\<close>

theorem transfer_input_decoded:
  assumes "matchTransferLog cfg iface who (logs receipt) = None"
    and "tokenAddress cfg \<noteq> []"
    and "getTransaction provider hash = Some tx"
    and "tx_to tx = Some t"
    and "toLowerCase t = toLowerCase (tokenAddress cfg)"
    and "tx_data tx = ''0xa9059cbb'' @ slot1 @ slot2 @ rest"
    and "length slot1 = 64"
    and "length slot2 = 64"
    and "list_all (is_radix_digit 16) slot2"
  shows "matchTransfer cfg iface provider hash who receipt =
     Inr (if toLowerCase (tx_from tx) = toLowerCase who
             \<and> toLowerCase (''0x'' @ drop 24 slot1) = toLowerCase (depositWallet cfg)
          then Some \<lparr>m_from = toLowerCase (tx_from tx),
                     m_to = toLowerCase (depositWallet cfg),
                     m_value = radix_value 16 slot2\<rparr>
          else None)"
proof -
  from assms(2,5) have t: "t \<noteq> []"
    using toLowerCase_Nil [of t] toLowerCase_Nil [of "tokenAddress cfg"] by auto
  have sw: "startsWith (tx_data tx) ''0xa9059cbb''"
    by (simp add: assms(6) startsWith_def)
  have s1: "slice 10 74 (tx_data tx) = slot1"
    using slice_middle [of "''0xa9059cbb''" 10 slot1 64 "slot2 @ rest"] assms(7)
    by (simp add: assms(6))
  have s2: "slice 74 138 (tx_data tx) = slot2"
    using slice_middle [of "''0xa9059cbb'' @ slot1" 74 slot2 64 rest] assms(7,8)
    by (simp add: assms(6))
  from assms(8) have ne: "slot2 \<noteq> []" by auto
  have val: "BigInt (''0x'' @ slot2) = Inr (radix_value 16 slot2)"
    using ne assms(9) by (rule BigInt_hex)
  show ?thesis
    using assms(1,3,4,5) t sw
    by (simp add: matchTransfer_def matchTransferInput_def Let_def s1 s2 val
        slice_from_def or_else_Some_empty del: append.simps)
qed

theorem transfer_input_decoded_witness:
  "matchTransferLog (UsdcService_getChainConfig (UsdcService_constructor ex_env) op_sepolia)
     ex_iface ex_sender (logs ex_receipt_nologs) = None
   \<and> tx_data ex_tx_transfer = ''0xa9059cbb'' @ ex_slot1 @ ex_slot2 @ []
   \<and> length ex_slot1 = 64 \<and> length ex_slot2 = 64
   \<and> list_all (is_radix_digit 16) ex_slot2
   \<and> radix_value 16 ex_slot2 = 1000000
   \<and> matchTransfer (UsdcService_getChainConfig (UsdcService_constructor ex_env) op_sepolia)
        ex_iface ex_provider_input ''0xh'' ex_sender ex_receipt_nologs =
      Inr (Some \<lparr>m_from = toLowerCase ex_sender, m_to = toLowerCase ex_deposit,
                 m_value = 1000000\<rparr>)"
proof -
  let ?cfg = "UsdcService_getChainConfig (UsdcService_constructor ex_env) op_sepolia"
  have h1: "matchTransferLog ?cfg ex_iface ex_sender (logs ex_receipt_nologs) = None"
    by code_simp
  have h2: "tokenAddress ?cfg \<noteq> []" by code_simp
  have h3: "getTransaction ex_provider_input ''0xh'' = Some ex_tx_transfer" by code_simp
  have h4: "tx_to ex_tx_transfer = Some ex_token" by code_simp
  have h5: "toLowerCase ex_token = toLowerCase (tokenAddress ?cfg)" by code_simp
  have h6: "tx_data ex_tx_transfer = ''0xa9059cbb'' @ ex_slot1 @ ex_slot2 @ []" by code_simp
  have h7: "length ex_slot1 = 64" by code_simp
  have h8: "length ex_slot2 = 64" by code_simp
  have h9: "list_all (is_radix_digit 16) ex_slot2" by code_simp
  have c1: "toLowerCase (tx_from ex_tx_transfer) = toLowerCase ex_sender" by code_simp
  have c2: "toLowerCase (''0x'' @ drop 24 ex_slot1) = toLowerCase (depositWallet ?cfg)"
    by code_simp
  have c3: "toLowerCase (depositWallet ?cfg) = toLowerCase ex_deposit" by code_simp
  have c4: "radix_value 16 ex_slot2 = 1000000" by code_simp
  from transfer_input_decoded [OF h1 h2 h3 h4 h5 h6 h7 h8 h9]
  have "matchTransfer ?cfg ex_iface ex_provider_input ''0xh'' ex_sender ex_receipt_nologs =
      Inr (Some \<lparr>m_from = toLowerCase ex_sender, m_to = toLowerCase ex_deposit,
                 m_value = 1000000\<rparr>)"
    by (simp only: c1 c2 c3 c4 if_True simp_thms)
  with h1 h6 h7 h8 h9 c4 show ?thesis by blast
qed

section \<open>Key derivation and sweep: the claims\<close>

lemma resolve_first_match:
  assumes "k < 10" and "i \<le> k"
    and "\<forall>j. i \<le> j \<and> j \<le> k \<longrightarrow> UsdcService_getDepositSigner this derive chain j = Inr (w j)"
    and "\<forall>j. i \<le> j \<and> j < k \<longrightarrow> toLowerCase (wallet_address (w j)) \<noteq> a"
    and "toLowerCase (wallet_address (w k)) = a"
  shows "resolveSignerFrom this derive chain a i = Inr (w k)"
  using assms
proof (induction "k - i" arbitrary: i)
  case 0
  then have "i = k" by simp
  with 0 show ?case by (subst resolveSignerFrom.simps) simp
next
  case (Suc n)
  then have lt: "i < k" by simp
  with Suc.prems have here: "UsdcService_getDepositSigner this derive chain i = Inr (w i)"
    and differs: "toLowerCase (wallet_address (w i)) \<noteq> a" by auto
  from Suc.hyps(2) have "n = k - Suc i" by simp
  moreover from lt have "Suc i \<le> k" by simp
  ultimately have "resolveSignerFrom this derive chain a (Suc i) = Inr (w k)"
    using Suc.prems by (intro Suc.hyps(1)) auto
  with here differs lt Suc.prems(1) show ?case
    by (subst resolveSignerFrom.simps) simp
qed

lemma resolve_no_match:
  assumes "\<forall>j. i \<le> j \<and> j < 10 \<longrightarrow> UsdcService_getDepositSigner this derive chain j = Inr (w j)"
    and "\<forall>j. i \<le> j \<and> j < 10 \<longrightarrow> toLowerCase (wallet_address (w j)) \<noteq> a"
  shows "resolveSignerFrom this derive chain a i =
         Inl (Error ''Mnemonic does not derive the expected wallet address'')"
  using assms
proof (induction "10 - i" arbitrary: i)
  case 0
  then show ?case by (subst resolveSignerFrom.simps) simp
next
  case (Suc n)
  then have lt: "i < 10" by simp
  with Suc.prems have here: "UsdcService_getDepositSigner this derive chain i = Inr (w i)"
    and differs: "toLowerCase (wallet_address (w i)) \<noteq> a" by auto
  from Suc.hyps(2) have "n = 10 - Suc i" by simp
  then have "resolveSignerFrom this derive chain a (Suc i) =
             Inl (Error ''Mnemonic does not derive the expected wallet address'')"
    using Suc.prems by (intro Suc.hyps(1)) auto
  with here differs lt show ?case
    by (subst resolveSignerFrom.simps) simp
qed

text \<open>The scan reads the derivation at the indices below 10 only.\<close>

lemma resolve_frame:
  assumes "\<forall>j<10. UsdcService_getDepositSigner this derive' chain j
                  = UsdcService_getDepositSigner this derive chain j"
  shows "resolveSignerFrom this derive' chain a i = resolveSignerFrom this derive chain a i"
proof (induction "10 - i" arbitrary: i)
  case 0
  then show ?case
    by (subst resolveSignerFrom.simps, subst (2) resolveSignerFrom.simps) simp
next
  case (Suc n)
  then have lt: "i < 10" by simp
  from Suc.hyps(2) have "n = 10 - Suc i" by simp
  then have "resolveSignerFrom this derive' chain a (Suc i)
             = resolveSignerFrom this derive chain a (Suc i)" by (rule Suc.hyps(1))
  with lt assms show ?case
    by (subst resolveSignerFrom.simps, subst (2) resolveSignerFrom.simps)
       (simp split: sum.splits)
qed

text \<open>
  C7, as the specification states it, fails when no seed phrase is configured: no index
  gives a signer, so none matches, and the scan ends at index 0 with the error
  \<^verbatim>\<open>USDC_MNEMONIC not configured\<close> instead of the address-not-derivable error.
\<close>

theorem resolve_signer_unconfigured:
  "mnemonic (UsdcService_constructor ex_env_bare) = []
   \<and> UsdcService_getDepositSigner (UsdcService_constructor ex_env_bare) ex_derive op_sepolia 0
       = Inl (Error ''USDC_MNEMONIC not configured'')
   \<and> UsdcService_resolveSignerForAddress (UsdcService_constructor ex_env_bare) ex_derive
        op_sepolia ex_sender = Inl (Error ''USDC_MNEMONIC not configured'')
   \<and> Error ''USDC_MNEMONIC not configured''
       \<noteq> Error ''Mnemonic does not derive the expected wallet address''"
  by code_simp

text \<open>
  C7, amended. Without a seed phrase \<open>resolveSignerForAddress\<close> fails with the
  configuration error. When the signers of the account indices 0 to 9 can be derived, it
  returns the signer of the first index whose address equals the target address in lower
  case, and fails with the address-not-derivable error when none of the ten does. The
  result does not depend on what the derivation gives beyond index 9.
\<close>

theorem resolve_signer_scan:
  "(mnemonic this = [] \<longrightarrow>
      UsdcService_resolveSignerForAddress this derive chain target =
        Inl (Error ''USDC_MNEMONIC not configured''))
   \<and> ((\<forall>i<10. UsdcService_getDepositSigner this derive chain i = Inr (w i)) \<longrightarrow>
        (\<forall>k<10. toLowerCase (wallet_address (w k)) = toLowerCase target \<longrightarrow>
                (\<forall>j<k. toLowerCase (wallet_address (w j)) \<noteq> toLowerCase target) \<longrightarrow>
                UsdcService_resolveSignerForAddress this derive chain target = Inr (w k))
      \<and> ((\<forall>i<10. toLowerCase (wallet_address (w i)) \<noteq> toLowerCase target) \<longrightarrow>
           UsdcService_resolveSignerForAddress this derive chain target =
             Inl (Error ''Mnemonic does not derive the expected wallet address'')))
   \<and> ((\<forall>i<10. derive' (mnemonic this) (''m/44'/60'/0'/0/'' @ digits_of (int i))
              = derive (mnemonic this) (''m/44'/60'/0'/0/'' @ digits_of (int i))) \<longrightarrow>
        UsdcService_resolveSignerForAddress this derive' chain target
        = UsdcService_resolveSignerForAddress this derive chain target)"
proof (intro conjI impI allI)
  assume "mnemonic this = []"
  then show "UsdcService_resolveSignerForAddress this derive chain target =
        Inl (Error ''USDC_MNEMONIC not configured'')"
    unfolding UsdcService_resolveSignerForAddress_def
    by (subst resolveSignerFrom.simps) (simp add: UsdcService_getDepositSigner_def)
next
  fix k
  assume "\<forall>i<10. UsdcService_getDepositSigner this derive chain i = Inr (w i)"
    and "k < 10"
    and "toLowerCase (wallet_address (w k)) = toLowerCase target"
    and "\<forall>j<k. toLowerCase (wallet_address (w j)) \<noteq> toLowerCase target"
  then show "UsdcService_resolveSignerForAddress this derive chain target = Inr (w k)"
    unfolding UsdcService_resolveSignerForAddress_def
    by (intro resolve_first_match) auto
next
  assume "\<forall>i<10. UsdcService_getDepositSigner this derive chain i = Inr (w i)"
    and "\<forall>i<10. toLowerCase (wallet_address (w i)) \<noteq> toLowerCase target"
  then show "UsdcService_resolveSignerForAddress this derive chain target =
             Inl (Error ''Mnemonic does not derive the expected wallet address'')"
    unfolding UsdcService_resolveSignerForAddress_def
    by (intro resolve_no_match) auto
next
  assume "\<forall>i<10. derive' (mnemonic this) (''m/44'/60'/0'/0/'' @ digits_of (int i))
              = derive (mnemonic this) (''m/44'/60'/0'/0/'' @ digits_of (int i))"
  then have "\<forall>j<10. UsdcService_getDepositSigner this derive' chain j
                  = UsdcService_getDepositSigner this derive chain j"
    by (simp add: UsdcService_getDepositSigner_def)
  then show "UsdcService_resolveSignerForAddress this derive' chain target
        = UsdcService_resolveSignerForAddress this derive chain target"
    unfolding UsdcService_resolveSignerForAddress_def by (rule resolve_frame)
qed

theorem resolve_signer_scan_witness:
  "UsdcService_resolveSignerForAddress (UsdcService_constructor ex_env_bare) ex_derive
     op_sepolia ex_deposit = Inl (Error ''USDC_MNEMONIC not configured'')
   \<and> UsdcService_resolveSignerForAddress (UsdcService_constructor ex_env) ex_derive
       op_sepolia ex_deposit = Inr (ex_wallet 3)
   \<and> wallet_path (ex_wallet 3) = ''m/44'/60'/0'/0/3''
   \<and> UsdcService_resolveSignerForAddress (UsdcService_constructor ex_env) ex_derive
       op_sepolia ex_sender
      = Inl (Error ''Mnemonic does not derive the expected wallet address'')
   \<and> UsdcService_resolveSignerForAddress (UsdcService_constructor ex_env) ex_derive_beyond
       op_sepolia ex_sender
      = Inl (Error ''Mnemonic does not derive the expected wallet address'')"
proof -
  let ?U = "UsdcService_constructor ex_env" and ?B = "UsdcService_constructor ex_env_bare"
  have bare: "mnemonic ?B = []" by code_simp
  have "\<forall>i \<in> set [0..<10]. UsdcService_getDepositSigner ?U ex_derive op_sepolia i
                            = Inr (ex_wallet i)"
    by code_simp
  then have all: "\<forall>i<10. UsdcService_getDepositSigner ?U ex_derive op_sepolia i
                         = Inr (ex_wallet i)" by simp
  have three: "(3::nat) < 10" by simp
  have hit: "toLowerCase (wallet_address (ex_wallet 3)) = toLowerCase ex_deposit"
    by code_simp
  have "\<forall>j \<in> set [0..<3]. toLowerCase (wallet_address (ex_wallet j)) \<noteq> toLowerCase ex_deposit"
    by code_simp
  then have before: "\<forall>j<3. toLowerCase (wallet_address (ex_wallet j)) \<noteq> toLowerCase ex_deposit"
    by simp
  have "\<forall>i \<in> set [0..<10]. toLowerCase (wallet_address (ex_wallet i)) \<noteq> toLowerCase ex_sender"
    by code_simp
  then have none: "\<forall>i<10. toLowerCase (wallet_address (ex_wallet i)) \<noteq> toLowerCase ex_sender"
    by simp
  have "\<forall>i \<in> set [0..<10].
          ex_derive_beyond (mnemonic ?U) (''m/44'/60'/0'/0/'' @ digits_of (int i))
          = ex_derive (mnemonic ?U) (''m/44'/60'/0'/0/'' @ digits_of (int i))"
    by code_simp
  then have same: "\<forall>i<10.
          ex_derive_beyond (mnemonic ?U) (''m/44'/60'/0'/0/'' @ digits_of (int i))
          = ex_derive (mnemonic ?U) (''m/44'/60'/0'/0/'' @ digits_of (int i))"
    by simp
  have path: "wallet_path (ex_wallet 3) = ''m/44'/60'/0'/0/3''" by code_simp
  note a = resolve_signer_scan [where this = ?B and derive = ex_derive and chain = op_sepolia
      and target = ex_deposit]
  note b = resolve_signer_scan [where this = ?U and derive = ex_derive and chain = op_sepolia
      and target = ex_deposit and w = ex_wallet]
  note c = resolve_signer_scan [where this = ?U and derive = ex_derive and chain = op_sepolia
      and target = ex_sender and w = ex_wallet and derive' = ex_derive_beyond]
  from a bare have 1: "UsdcService_resolveSignerForAddress ?B ex_derive op_sepolia ex_deposit
      = Inl (Error ''USDC_MNEMONIC not configured'')" by blast
  from b all three hit before
  have 2: "UsdcService_resolveSignerForAddress ?U ex_derive op_sepolia ex_deposit
      = Inr (ex_wallet 3)" by blast
  from c all none
  have 3: "UsdcService_resolveSignerForAddress ?U ex_derive op_sepolia ex_sender
      = Inl (Error ''Mnemonic does not derive the expected wallet address'')" by blast
  from c same
  have "UsdcService_resolveSignerForAddress ?U ex_derive_beyond op_sepolia ex_sender
      = UsdcService_resolveSignerForAddress ?U ex_derive op_sepolia ex_sender" by blast
  with 1 2 3 path show ?thesis by simp
qed

text \<open>A sweep of a funded address submits one transfer of the whole balance to the payout
  wallet, signed by the resolved signer.\<close>

lemma sweep_funded_submits:
  assumes "balanceOf w (UsdcService_getUsdcContract this chain) fromAddress = b"
    and "b \<noteq> 0"
    and "UsdcService_resolveSignerForAddress this derive chain fromAddress = Inr signer"
  shows "submitted (snd (UsdcService_sweepToPayout this derive mine w chain fromAddress)) =
         submitted w @
           [\<lparr>sub_contract = UsdcService_getUsdcContract this chain, sub_signer = signer,
             sub_to = payoutWallet (UsdcService_getChainConfig this chain), sub_amount = b\<rparr>]"
  using assms
  by (simp add: UsdcService_sweepToPayout_def UsdcService_getTokenBalance_def Let_def
      BigInt_toString transfer_and_wait_def split: prod.splits sum.splits)

text \<open>
  C8. When the token balance of the address is zero, \<open>sweepToPayout\<close> returns \<^verbatim>\<open>null\<close> and
  leaves the state of the chain as it was: no transfer is submitted. This holds for every
  service, also one without seed phrase, and for every derivation, so no signer is
  resolved on the way.
\<close>

theorem sweep_zero_balance:
  "balanceOf w (UsdcService_getUsdcContract this chain) fromAddress = 0 \<Longrightarrow>
   UsdcService_sweepToPayout this derive mine w chain fromAddress = (Inr None, w)"
  by (simp add: UsdcService_sweepToPayout_def UsdcService_getTokenBalance_def Let_def
      BigInt_toString)

theorem sweep_zero_balance_witness:
  "balanceOf ex_state_empty
     (UsdcService_getUsdcContract (UsdcService_constructor ex_env_bare) op_sepolia) ex_deposit = 0
   \<and> mnemonic (UsdcService_constructor ex_env_bare) = []
   \<and> UsdcService_sweepToPayout (UsdcService_constructor ex_env_bare) ex_derive ex_mine
        ex_state_empty op_sepolia ex_deposit = (Inr None, ex_state_empty)
   \<and> submitted ex_state_empty = []"
proof -
  have z: "balanceOf ex_state_empty
     (UsdcService_getUsdcContract (UsdcService_constructor ex_env_bare) op_sepolia) ex_deposit = 0"
    by code_simp
  have m: "mnemonic (UsdcService_constructor ex_env_bare) = []" by code_simp
  have s: "submitted ex_state_empty = []" by code_simp
  from sweep_zero_balance [OF z, of ex_derive ex_mine] z m s show ?thesis by blast
qed

end
